theory Spec2Isabelle
  imports Main "HOL-Library.Word"
begin

section \<open>The fixed-batch copy operator of DuckDB\<close>

text \<open>
  A shallow embedding of \<^verbatim>\<open>src/execution/operator/persistent/physical_fixed_batch_copy.cpp\<close>.
  One call of an operator method is one atomic step on the global state: the mutexes
  (\<^verbatim>\<open>lock\<close>, \<^verbatim>\<open>flush_lock\<close>, \<^verbatim>\<open>blocked_task_lock\<close>, \<^verbatim>\<open>task_lock\<close>) and the atomics are
  not modelled, the flag \<^verbatim>\<open>any_flushing\<close> is. An exception is a value \<open>Inl e\<close>.
\<close>

subsection \<open>Machine integers and errors\<close>

text \<open>\<^verbatim>\<open>idx_t\<close> is \<^verbatim>\<open>uint64_t\<close>: arithmetic wraps, comparison is unsigned.\<close>

type_synonym idx_t = "64 word"

text \<open>
  Modelled from the spec: the macro \<^verbatim>\<open>STANDARD_VECTOR_SIZE\<close> is not defined in the
  sources at hand; section 8 of the specification fixes \<^verbatim>\<open>VECTOR = 2048\<close>.
\<close>

definition STANDARD_VECTOR_SIZE :: idx_t where
  "STANDARD_VECTOR_SIZE = 2048"

text \<open>\<^verbatim>\<open>idx_t(NumericLimits<int64_t>::Maximum())\<close>, the "infinite" batch index.\<close>

definition INT64_MAXIMUM :: idx_t where
  "INT64_MAXIMUM = 9223372036854775807"

datatype error =
    CopyFunctionIncomplete
      \<comment> \<open>InternalException: PhysicalFixedBatchCopy created for copy function that does not
          have prepare\_batch/flush\_batch/desired\_batch\_size defined\<close>
  | DuplicateBatchIndex idx_t
      \<comment> \<open>InternalException: Duplicate batch index encountered in PhysicalFixedBatchCopy\<close>
  | MemoryUsageDecreased
      \<comment> \<open>InternalException: PhysicalFixedBatchCopy - memory usage decreased somehow?\<close>
  | UnexecutedTasksRemaining
      \<comment> \<open>InternalException: Unexecuted tasks are remaining in FinalFlush\<close>
  | NotAllBatchesFlushed
      \<comment> \<open>InternalException: Not all batches were flushed to disk - incomplete file?\<close>
  | BatchIndexOutOfOrder
      \<comment> \<open>InternalException: Batch index was out of order\<close>
  | InvalidIndex
      \<comment> \<open>\<^verbatim>\<open>optional_idx::GetIndex\<close> on an index that was never set\<close>
  | NullPointer
      \<comment> \<open>a call through a null callback or a null collection pointer\<close>
  | DivisionByZero
      \<comment> \<open>integer division by zero\<close>
  | CallbackFailure nat
      \<comment> \<open>an exception thrown by a callback of the copy function\<close>

definition GetIndex :: "idx_t option \<Rightarrow> error + idx_t" where
  "GetIndex i = (case i of None \<Rightarrow> Inl InvalidIndex | Some v \<Rightarrow> Inr v)"

subsection \<open>Chunks and collections\<close>

text \<open>
  Modelled from the spec: \<^verbatim>\<open>DataChunk\<close> and \<^verbatim>\<open>ColumnDataCollection\<close> are not in the
  sources at hand. Section 3 of the specification: a chunk is a row group with a row
  count, immutable once appended; a collection is an ordered sequence of chunks with
  append, iteration and a size in bytes that is monotone in the appended data. A chunk
  is its row count and its size in bytes; a collection is the list of its chunks.
\<close>

record DataChunk =
  chunk_size :: idx_t
  chunk_bytes :: idx_t

type_synonym ColumnDataCollection = "DataChunk list"

definition Count :: "ColumnDataCollection \<Rightarrow> idx_t" where
  "Count c = sum_list (map chunk_size c)"

definition SizeInBytes :: "ColumnDataCollection \<Rightarrow> idx_t" where
  "SizeInBytes c = sum_list (map chunk_bytes c)"

definition Append :: "ColumnDataCollection \<Rightarrow> DataChunk \<Rightarrow> ColumnDataCollection" where
  "Append c chunk = c @ [chunk]"

definition Chunks :: "ColumnDataCollection \<Rightarrow> DataChunk list" where
  "Chunks c = c"

subsection \<open>The memory broker\<close>

text \<open>
  Modelled from the spec: \<^verbatim>\<open>TemporaryMemoryState\<close> and the buffer manager are not in
  the sources at hand. Section 6: \<^verbatim>\<open>set_remaining_size(size)\<close>, \<^verbatim>\<open>get_reservation()\<close>
  and a global \<^verbatim>\<open>query_max_memory()\<close>. What the broker grants is a parameter of the
  context (\<open>grant\<close>: the broker's state and the size asked for give the reservation);
  \<open>requests\<close> logs every call of \<^verbatim>\<open>SetRemainingSize\<close>.
\<close>

record TemporaryMemoryState =
  remaining_size :: idx_t
  reservation :: idx_t
  requests :: "idx_t list"

record ClientContext =
  query_max_memory :: idx_t
  number_of_threads :: nat
  grant :: "TemporaryMemoryState \<Rightarrow> idx_t \<Rightarrow> idx_t"

definition GetQueryMaxMemory :: "ClientContext \<Rightarrow> idx_t" where
  "GetQueryMaxMemory ctx = query_max_memory ctx"

definition Register :: "ClientContext \<Rightarrow> TemporaryMemoryState" where
  "Register ctx = \<lparr>remaining_size = 0, reservation = 0, requests = []\<rparr>"

definition SetRemainingSize ::
  "ClientContext \<Rightarrow> TemporaryMemoryState \<Rightarrow> idx_t \<Rightarrow> TemporaryMemoryState" where
  "SetRemainingSize ctx ms sz =
     ms\<lparr>remaining_size := sz, reservation := grant ctx ms sz, requests := requests ms @ [sz]\<rparr>"

definition GetReservation :: "TemporaryMemoryState \<Rightarrow> idx_t" where
  "GetReservation ms = reservation ms"

subsection \<open>The copy function, the tasks and the states\<close>

text \<open>
  The callbacks of \<^verbatim>\<open>CopyFunction\<close> are function pointers: \<open>None\<close> is a null pointer.
  \<open>'gs\<close> is the sink's \<^verbatim>\<open>GlobalFunctionData\<close>, \<open>'pd\<close> its \<^verbatim>\<open>PreparedBatchData\<close>.
  \<^verbatim>\<open>desired_batch_size\<close> and \<^verbatim>\<open>copy_to_initialize_global\<close> only read the bind data, so
  each is the value it returns.
\<close>

record ('pd, 'gs) CopyFunction =
  desired_batch_size :: "idx_t option"
  copy_to_initialize_global :: "'gs option"
  prepare_batch :: "('gs \<Rightarrow> ColumnDataCollection \<Rightarrow> error + 'pd \<times> 'gs) option"
  flush_batch :: "('gs \<Rightarrow> 'pd \<Rightarrow> error + 'gs) option"
  copy_to_finalize :: "('gs \<Rightarrow> error + 'gs) option"

text \<open>
  The operator. \<open>copy_function\<close> is the member \<^verbatim>\<open>function\<close> and \<open>column_count\<close> is
  \<^verbatim>\<open>children[0]->types.size()\<close>.
\<close>

record ('pd, 'gs) PhysicalFixedBatchCopy =
  copy_function :: "('pd, 'gs) CopyFunction"
  column_count :: idx_t
  use_tmp_file :: bool

datatype BatchCopyTask =
    RepartitionedFlushTask
  | PrepareBatchTask idx_t ColumnDataCollection

record 'pd FixedPreparedBatchData =
  memory_usage :: idx_t
  prepared_data :: 'pd

type_synonym InterruptState = nat

text \<open>
  \<^verbatim>\<open>FixedBatchCopyGlobalState\<close>. A \<^verbatim>\<open>std::map\<close> is an association list in ascending
  key order (see \<open>map_insert\<close>); the task queue is a list, front first. Three fields
  are not in the source and record what leaves the operator: \<open>flush_trace\<close> (the value of
  \<^verbatim>\<open>flushed_batch_index\<close> at each call of \<^verbatim>\<open>flush_batch\<close>), \<open>woken\<close> (the interrupt
  states whose \<^verbatim>\<open>Callback\<close> ran) and \<open>tmp_file_moved\<close> (\<^verbatim>\<open>MoveTmpFile\<close> ran).
\<close>

record ('pd, 'gs) FixedBatchCopyGlobalState =
  client_context :: ClientContext
  rows_copied :: idx_t
  global_state :: 'gs
  batch_size :: idx_t
  raw_batches :: "(idx_t \<times> ColumnDataCollection) list"
  batch_data :: "(idx_t \<times> 'pd FixedPreparedBatchData) list"
  scheduled_batch_index :: idx_t
  flushed_batch_index :: idx_t
  any_flushing :: bool
  any_finished :: bool
  memory_state :: TemporaryMemoryState
  minimum_memory_per_thread :: idx_t
  unflushed_memory_usage :: idx_t
  min_batch_index :: idx_t
  available_memory :: idx_t
  blocked_tasks :: "InterruptState list"
  can_increase_memory :: bool
  task_queue :: "BatchCopyTask list"
  flush_trace :: "idx_t list"
  woken :: "InterruptState list"
  tmp_file_moved :: bool

datatype FixedBatchCopyState = SINKING_DATA | PROCESSING_TASKS

datatype SinkResultType = NEED_MORE_INPUT | BLOCKED

text \<open>
  \<^verbatim>\<open>FixedBatchCopyLocalState\<close>, with the partition info the executor sets before each
  call (\<open>partition_batch_index\<close>, \<open>partition_min_batch_index\<close>).
\<close>

record FixedBatchCopyLocalState =
  collection :: "ColumnDataCollection option"
  local_rows_copied :: idx_t
  local_memory_usage :: idx_t
  batch_index :: "idx_t option"
  current_task :: FixedBatchCopyState
  partition_batch_index :: "idx_t option"
  partition_min_batch_index :: "idx_t option"

definition InitializeCollection :: "FixedBatchCopyLocalState \<Rightarrow> FixedBatchCopyLocalState" where
  "InitializeCollection state = state\<lparr>collection := Some [], local_memory_usage := 0\<rparr>"

subsection \<open>The constructor\<close>

definition MINIMUM_MEMORY_PER_COLUMN_PER_THREAD :: idx_t where
  "MINIMUM_MEMORY_PER_COLUMN_PER_THREAD = 4 * 1024 * 1024"


subsection \<open>Memory: SetMemorySize, IncreaseMemory, OutOfMemory, MaxThreads\<close>

definition SetMemorySize ::
  "('pd, 'gs) FixedBatchCopyGlobalState \<Rightarrow> idx_t \<Rightarrow> ('pd, 'gs) FixedBatchCopyGlobalState" where
  "SetMemorySize g size_p =
     (let total_max_memory = GetQueryMaxMemory (client_context g);
          request_cap = total_max_memory div 4;
          sz = min size_p request_cap
      in if sz \<le> available_memory g then g
         else
           let g1 = g\<lparr>memory_state := SetRemainingSize (client_context g) (memory_state g) sz\<rparr>;
               next_reservation = GetReservation (memory_state g1);
               g2 = (if available_memory g1 \<ge> next_reservation
                     then g1\<lparr>can_increase_memory := False\<rparr> else g1)
           in g2\<lparr>available_memory := next_reservation\<rparr>)"

definition IncreaseMemory ::
  "('pd, 'gs) FixedBatchCopyGlobalState \<Rightarrow> ('pd, 'gs) FixedBatchCopyGlobalState" where
  "IncreaseMemory g =
     (if \<not> can_increase_memory g then g
      else SetMemorySize g (available_memory g * 2))"

text \<open>
  \<^verbatim>\<open>OutOfMemory\<close> of the default build (without \<^verbatim>\<open>DUCKDB_ALTERNATIVE_VERIFY\<close>). It returns
  its answer and the state, which \<^verbatim>\<open>IncreaseMemory\<close> may have changed.
\<close>

definition OutOfMemory ::
  "('pd, 'gs) FixedBatchCopyGlobalState \<Rightarrow> idx_t
   \<Rightarrow> bool \<times> ('pd, 'gs) FixedBatchCopyGlobalState" where
  "OutOfMemory g batch_index_p =
     (if unflushed_memory_usage g \<ge> available_memory g then
        (if batch_index_p > min_batch_index g then
           (let g1 = IncreaseMemory g in
            if unflushed_memory_usage g1 \<ge> available_memory g1 then (True, g1)
            else (False, g1))
         else (False, g))
      else (False, g))"

text \<open>
  \<^verbatim>\<open>MaxThreads\<close>. The division is by \<^verbatim>\<open>minimum_memory_per_thread\<close>; HOL's \<open>div\<close> by
  zero is 0, the program's is a trap, so the model returns an error there.
\<close>

definition MaxThreads ::
  "('pd, 'gs) FixedBatchCopyGlobalState \<Rightarrow> idx_t
   \<Rightarrow> error + idx_t \<times> ('pd, 'gs) FixedBatchCopyGlobalState" where
  "MaxThreads g source_max_threads =
     (let g1 = SetMemorySize g (source_max_threads * minimum_memory_per_thread g) in
      if minimum_memory_per_thread g1 = 0 then Inl DivisionByZero
      else Inr (min source_max_threads
                  (available_memory g1 div minimum_memory_per_thread g1 + 1), g1))"

subsection \<open>Ordered maps and the task queue\<close>

text \<open>
  \<^verbatim>\<open>std::map::insert\<close> on a list in ascending key order: the new list, and whether the
  pair was inserted (it is not when the key is there already).
\<close>

fun map_insert :: "idx_t \<Rightarrow> 'v \<Rightarrow> (idx_t \<times> 'v) list \<Rightarrow> (idx_t \<times> 'v) list \<times> bool" where
  "map_insert k v [] = ([(k, v)], True)"
| "map_insert k v (e # m) =
     (if k < fst e then ((k, v) # e # m, True)
      else if k = fst e then (e # m, False)
      else (e # fst (map_insert k v m), snd (map_insert k v m)))"

text \<open>\<^verbatim>\<open>m[k] = v\<close>: the value of an existing key is replaced.\<close>

fun map_assign :: "idx_t \<Rightarrow> 'v \<Rightarrow> (idx_t \<times> 'v) list \<Rightarrow> (idx_t \<times> 'v) list" where
  "map_assign k v [] = [(k, v)]"
| "map_assign k v (e # m) =
     (if k < fst e then (k, v) # e # m
      else if k = fst e then (k, v) # m
      else e # map_assign k v m)"

text \<open>The invariant of a \<^verbatim>\<open>std::map\<close>: keys strictly ascending.\<close>

definition ordered_map :: "(idx_t \<times> 'v) list \<Rightarrow> bool" where
  "ordered_map m = sorted_wrt (<) (map fst m)"

definition AddTask ::
  "('pd, 'gs) FixedBatchCopyGlobalState \<Rightarrow> BatchCopyTask \<Rightarrow> ('pd, 'gs) FixedBatchCopyGlobalState" where
  "AddTask g task = g\<lparr>task_queue := task_queue g @ [task]\<rparr>"

definition GetTask ::
  "('pd, 'gs) FixedBatchCopyGlobalState
   \<Rightarrow> BatchCopyTask option \<times> ('pd, 'gs) FixedBatchCopyGlobalState" where
  "GetTask g =
     (case task_queue g of
        [] \<Rightarrow> (None, g)
      | entry # rest \<Rightarrow> (Some entry, g\<lparr>task_queue := rest\<rparr>))"

definition TaskCount :: "('pd, 'gs) FixedBatchCopyGlobalState \<Rightarrow> nat" where
  "TaskCount g = length (task_queue g)"

definition AddBatchData ::
  "('pd, 'gs) FixedBatchCopyGlobalState \<Rightarrow> idx_t \<Rightarrow> 'pd \<Rightarrow> idx_t
   \<Rightarrow> error + ('pd, 'gs) FixedBatchCopyGlobalState" where
  "AddBatchData g batch_index_p new_batch memory_usage_p =
     (let prepared = \<lparr>memory_usage = memory_usage_p, prepared_data = new_batch\<rparr>;
          entry = map_insert batch_index_p prepared (batch_data g)
      in if \<not> snd entry then Inl (DuplicateBatchIndex batch_index_p)
         else Inr (g\<lparr>batch_data := fst entry\<rparr>))"

subsection \<open>Blocked producers and the minimum batch index\<close>

definition BlockTask ::
  "('pd, 'gs) FixedBatchCopyGlobalState \<Rightarrow> InterruptState \<Rightarrow> ('pd, 'gs) FixedBatchCopyGlobalState" where
  "BlockTask g state = g\<lparr>blocked_tasks := blocked_tasks g @ [state]\<rparr>"

definition UnblockTasksInternal ::
  "('pd, 'gs) FixedBatchCopyGlobalState \<Rightarrow> bool \<times> ('pd, 'gs) FixedBatchCopyGlobalState" where
  "UnblockTasksInternal g =
     (if blocked_tasks g = [] then (False, g)
      else (True, g\<lparr>woken := woken g @ blocked_tasks g, blocked_tasks := []\<rparr>))"

definition UnblockTasks ::
  "('pd, 'gs) FixedBatchCopyGlobalState \<Rightarrow> bool \<times> ('pd, 'gs) FixedBatchCopyGlobalState" where
  "UnblockTasks g = UnblockTasksInternal g"

definition UpdateMinBatchIndex ::
  "('pd, 'gs) FixedBatchCopyGlobalState \<Rightarrow> idx_t \<Rightarrow> ('pd, 'gs) FixedBatchCopyGlobalState" where
  "UpdateMinBatchIndex g current_min_batch_index =
     (if min_batch_index g \<ge> current_min_batch_index then g
      else
        let new_batch_index = max (min_batch_index g) current_min_batch_index in
        if new_batch_index \<noteq> min_batch_index g
        then snd (UnblockTasksInternal (g\<lparr>min_batch_index := new_batch_index\<rparr>))
        else g)"

subsection \<open>FlushBatchData\<close>

text \<open>
  The \<^verbatim>\<open>while (true)\<close> loop of \<^verbatim>\<open>FlushBatchData\<close> (lines 571 to 594). Each turn that
  does not leave the loop erases the first entry of \<^verbatim>\<open>batch_data\<close>.
\<close>

function FlushBatchData_loop ::
  "('pd, 'gs) PhysicalFixedBatchCopy \<Rightarrow> ('pd, 'gs) FixedBatchCopyGlobalState
   \<Rightarrow> error + ('pd, 'gs) FixedBatchCopyGlobalState" where
  "FlushBatchData_loop op g =
     (case batch_data g of
        [] \<Rightarrow> Inr g
      | entry # rest \<Rightarrow>
          if fst entry \<noteq> flushed_batch_index g then Inr g
          else if fst entry < flushed_batch_index g then Inl BatchIndexOutOfOrder
          else
            (case flush_batch (copy_function op) of
               None \<Rightarrow> Inl NullPointer
             | Some flush \<Rightarrow>
                 (case flush (global_state g) (prepared_data (snd entry)) of
                    Inl e \<Rightarrow> Inl e
                  | Inr gs \<Rightarrow>
                      FlushBatchData_loop op
                        (g\<lparr>batch_data := rest,
                           global_state := gs,
                           flush_trace := flush_trace g @ [flushed_batch_index g],
                           unflushed_memory_usage :=
                             unflushed_memory_usage g - memory_usage (snd entry),
                           flushed_batch_index := flushed_batch_index g + 1\<rparr>))))"
  by pat_completeness auto
termination
  by (relation "measure (\<lambda>(op, g). length (batch_data g))") auto

declare FlushBatchData_loop.simps [simp del]

text \<open>
  \<^verbatim>\<open>FlushBatchData\<close>: nothing is done while another flush is active; the guard
  \<^verbatim>\<open>ActiveFlushGuard\<close> clears \<^verbatim>\<open>any_flushing\<close> when the loop is left. The parameter
  \<^verbatim>\<open>min_index\<close> is not read by the function.
\<close>

definition FlushBatchData ::
  "('pd, 'gs) PhysicalFixedBatchCopy \<Rightarrow> ('pd, 'gs) FixedBatchCopyGlobalState \<Rightarrow> idx_t
   \<Rightarrow> error + ('pd, 'gs) FixedBatchCopyGlobalState" where
  "FlushBatchData op g min_index =
     (if any_flushing g then Inr g
      else
        (case FlushBatchData_loop op (g\<lparr>any_flushing := True\<rparr>) of
           Inl e \<Rightarrow> Inl e
         | Inr g1 \<Rightarrow> Inr (g1\<lparr>any_flushing := False\<rparr>)))"

subsection \<open>Tasks\<close>

fun Execute ::
  "BatchCopyTask \<Rightarrow> ('pd, 'gs) PhysicalFixedBatchCopy \<Rightarrow> ('pd, 'gs) FixedBatchCopyGlobalState
   \<Rightarrow> error + ('pd, 'gs) FixedBatchCopyGlobalState" where
  "Execute RepartitionedFlushTask op g = FlushBatchData op g 0"
| "Execute (PrepareBatchTask batch_index_p collection_p) op g =
     (let memory_usage_p = SizeInBytes collection_p in
      case prepare_batch (copy_function op) of
        None \<Rightarrow> Inl NullPointer
      | Some prepare \<Rightarrow>
          (case prepare (global_state g) collection_p of
             Inl e \<Rightarrow> Inl e
           | Inr r \<Rightarrow>
               (case AddBatchData (g\<lparr>global_state := snd r\<rparr>) batch_index_p (fst r)
                       memory_usage_p of
                  Inl e \<Rightarrow> Inl e
                | Inr g1 \<Rightarrow>
                    Inr (if batch_index_p = flushed_batch_index g1
                         then AddTask g1 RepartitionedFlushTask else g1))))"

definition ExecuteTask ::
  "('pd, 'gs) PhysicalFixedBatchCopy \<Rightarrow> ('pd, 'gs) FixedBatchCopyGlobalState
   \<Rightarrow> error + bool \<times> ('pd, 'gs) FixedBatchCopyGlobalState" where
  "ExecuteTask op g =
     (case GetTask g of
        (None, g1) \<Rightarrow> Inr (False, g1)
      | (Some task, g1) \<Rightarrow>
          (case Execute task op g1 of
             Inl e \<Rightarrow> Inl e
           | Inr g2 \<Rightarrow> Inr (True, g2)))"

text \<open>
  \<^verbatim>\<open>ExecuteTasks\<close> runs tasks until the queue is empty. A prepare task may add one flush
  task and a flush task adds none, so the weight of the queue goes down with every task.
\<close>

fun task_weight :: "BatchCopyTask \<Rightarrow> nat" where
  "task_weight RepartitionedFlushTask = 1"
| "task_weight (PrepareBatchTask i c) = 2"

definition queue_weight :: "('pd, 'gs) FixedBatchCopyGlobalState \<Rightarrow> nat" where
  "queue_weight g = sum_list (map task_weight (task_queue g))"

lemma FlushBatchData_loop_task_queue:
  "FlushBatchData_loop op g = Inr g' \<Longrightarrow> task_queue g' = task_queue g"
proof (induction op g rule: FlushBatchData_loop.induct)
  case (1 op g)
  show ?case
  proof (cases "batch_data g")
    case Nil
    with "1.prems" show ?thesis by (simp add: FlushBatchData_loop.simps[of op g])
  next
    case (Cons entry rest)
    show ?thesis
    proof (cases "fst entry = flushed_batch_index g")
      case False
      with Cons "1.prems" show ?thesis by (simp add: FlushBatchData_loop.simps[of op g])
    next
      case True
      then have nlt: "\<not> fst entry < flushed_batch_index g" by simp
      from Cons True "1.prems" obtain flush gs where
        fl: "flush_batch (copy_function op) = Some flush"
        and fg: "flush (global_state g) (prepared_data (snd entry)) = Inr gs"
        by (auto simp: FlushBatchData_loop.simps[of op g] split: option.splits sum.splits)
      from "1.IH"[OF Cons _ nlt fl fg] Cons True fl fg "1.prems"
      show ?thesis by (simp add: FlushBatchData_loop.simps[of op g])
    qed
  qed
qed

lemma FlushBatchData_task_queue:
  "FlushBatchData op g m = Inr g' \<Longrightarrow> task_queue g' = task_queue g"
  by (auto simp: FlushBatchData_def split: if_splits sum.splits
           dest: FlushBatchData_loop_task_queue)

lemma Execute_flush_queue_weight:
  "Execute RepartitionedFlushTask op g = Inr g' \<Longrightarrow> queue_weight g' = queue_weight g"
  by (auto simp: queue_weight_def dest: FlushBatchData_task_queue)

lemma AddBatchData_task_queue:
  "AddBatchData g i b m = Inr g' \<Longrightarrow> task_queue g' = task_queue g"
  by (auto simp: AddBatchData_def Let_def split: if_splits)

lemma Execute_prepare_queue_weight:
  assumes "Execute (PrepareBatchTask i c) op g = Inr g'"
  shows "queue_weight g' \<le> queue_weight g + 1"
proof -
  from assms obtain prepare r g1 where
    ab: "AddBatchData (g\<lparr>global_state := snd r\<rparr>) i (fst r) (SizeInBytes c) = Inr g1"
    and g': "g' = (if i = flushed_batch_index g1 then AddTask g1 RepartitionedFlushTask else g1)"
    by (auto simp: Let_def split: option.splits sum.splits)
  from AddBatchData_task_queue[OF ab] have "task_queue g1 = task_queue g" by simp
  with g' show ?thesis by (simp add: queue_weight_def AddTask_def)
qed

lemma ExecuteTask_queue_weight:
  assumes "ExecuteTask op g = Inr (True, g')"
  shows "queue_weight g' < queue_weight g"
proof (cases "task_queue g")
  case Nil
  with assms show ?thesis by (simp add: ExecuteTask_def GetTask_def)
next
  case (Cons task rest)
  with assms have ex: "Execute task op (g\<lparr>task_queue := rest\<rparr>) = Inr g'"
    by (simp add: ExecuteTask_def GetTask_def split: sum.splits)
  have w: "queue_weight g = task_weight task + queue_weight (g\<lparr>task_queue := rest\<rparr>)"
    using Cons by (simp add: queue_weight_def)
  show ?thesis
  proof (cases task)
    case RepartitionedFlushTask
    with ex w Execute_flush_queue_weight[of op "g\<lparr>task_queue := rest\<rparr>" g']
    show ?thesis by simp
  next
    case (PrepareBatchTask i c)
    with ex w Execute_prepare_queue_weight[of i c op "g\<lparr>task_queue := rest\<rparr>" g']
    show ?thesis by simp
  qed
qed

function ExecuteTasks ::
  "('pd, 'gs) PhysicalFixedBatchCopy \<Rightarrow> ('pd, 'gs) FixedBatchCopyGlobalState
   \<Rightarrow> error + ('pd, 'gs) FixedBatchCopyGlobalState" where
  "ExecuteTasks op g =
     (case ExecuteTask op g of
        Inl e \<Rightarrow> Inl e
      | Inr r \<Rightarrow> if fst r then ExecuteTasks op (snd r) else Inr (snd r))"
  by pat_completeness auto
termination
proof (relation "measure (\<lambda>(op, g). queue_weight g)")
  show "wf (measure (\<lambda>(op, g). queue_weight g))" by simp
next
  fix op :: "('pd, 'gs) PhysicalFixedBatchCopy"
    and g :: "('pd, 'gs) FixedBatchCopyGlobalState" and r
  assume "ExecuteTask op g = Inr r" "fst r"
  then have "ExecuteTask op g = Inr (True, snd r)" by (cases r) simp
  then show "((op, snd r), (op, g)) \<in> measure (\<lambda>(op, g). queue_weight g)"
    by (simp add: ExecuteTask_queue_weight)
qed

declare ExecuteTasks.simps [simp del]

text \<open>
  \<^verbatim>\<open>ProcessRemainingBatchesTask::ExecuteTask\<close>: one worker of the final event, which
  flushes after every task it ran.
\<close>

function ProcessRemainingBatchesTask ::
  "('pd, 'gs) PhysicalFixedBatchCopy \<Rightarrow> ('pd, 'gs) FixedBatchCopyGlobalState
   \<Rightarrow> error + ('pd, 'gs) FixedBatchCopyGlobalState" where
  "ProcessRemainingBatchesTask op g =
     (case ExecuteTask op g of
        Inl e \<Rightarrow> Inl e
      | Inr r \<Rightarrow>
          if fst r then
            (case FlushBatchData op (snd r) 0 of
               Inl e \<Rightarrow> Inl e
             | Inr g1 \<Rightarrow> ProcessRemainingBatchesTask op g1)
          else Inr (snd r))"
  by pat_completeness auto
termination
proof (relation "measure (\<lambda>(op, g). queue_weight g)")
  show "wf (measure (\<lambda>(op, g). queue_weight g))" by simp
next
  fix op :: "('pd, 'gs) PhysicalFixedBatchCopy"
    and g g1 :: "('pd, 'gs) FixedBatchCopyGlobalState" and r
  assume "ExecuteTask op g = Inr r" "fst r" and fl: "FlushBatchData op (snd r) 0 = Inr g1"
  then have "ExecuteTask op g = Inr (True, snd r)" by (cases r) simp
  then have "queue_weight (snd r) < queue_weight g" by (rule ExecuteTask_queue_weight)
  moreover have "queue_weight g1 = queue_weight (snd r)"
    using FlushBatchData_task_queue[OF fl] by (simp add: queue_weight_def)
  ultimately show "((op, g1), (op, g)) \<in> measure (\<lambda>(op, g). queue_weight g)" by simp
qed

declare ProcessRemainingBatchesTask.simps [simp del]

subsection \<open>Repartitioning\<close>

definition AddRawBatchData ::
  "('pd, 'gs) FixedBatchCopyGlobalState \<Rightarrow> idx_t \<Rightarrow> ColumnDataCollection
   \<Rightarrow> error + ('pd, 'gs) FixedBatchCopyGlobalState" where
  "AddRawBatchData g batch_index_p collection_p =
     (let entry = map_insert batch_index_p collection_p (raw_batches g)
      in if \<not> snd entry then Inl (DuplicateBatchIndex batch_index_p)
         else Inr (g\<lparr>raw_batches := fst entry\<rparr>))"

text \<open>
  \<^verbatim>\<open>AbsValue<int64_t>\<close> on the bits of a 64-bit value read as two's complement:
  \<^verbatim>\<open>a < 0 ? -a : a\<close>.
\<close>

definition AbsValue :: "64 word \<Rightarrow> 64 word" where
  "AbsValue a = (if sint a < 0 then - a else a)"

text \<open>
  \<^verbatim>\<open>CorrectSizeForBatch\<close>. The casts to \<^verbatim>\<open>int64_t\<close> and back to \<^verbatim>\<open>idx_t\<close> keep the
  bits; the subtraction is the same on signed and unsigned values.
\<close>

definition CorrectSizeForBatch :: "idx_t \<Rightarrow> idx_t \<Rightarrow> bool" where
  "CorrectSizeForBatch collection_size desired_size =
     (AbsValue (collection_size - desired_size) < STANDARD_VECTOR_SIZE)"

text \<open>The loop of lines 479 to 485: the rows of the entries below \<^verbatim>\<open>min_index\<close>.\<close>

fun candidate_rows_loop ::
  "(idx_t \<times> ColumnDataCollection) list \<Rightarrow> idx_t \<Rightarrow> idx_t \<Rightarrow> idx_t" where
  "candidate_rows_loop [] min_index candidate_rows = candidate_rows"
| "candidate_rows_loop (entry # rest) min_index candidate_rows =
     (if fst entry \<ge> min_index then candidate_rows
      else candidate_rows_loop rest min_index (candidate_rows + Count (snd entry)))"

text \<open>
  The loop of lines 494 to 501: the entries below \<^verbatim>\<open>min_index\<close> leave the map. The
  result is what is left of the map, \<^verbatim>\<open>max_batch_index\<close> and the collections.
\<close>

fun gather_collections ::
  "(idx_t \<times> ColumnDataCollection) list \<Rightarrow> idx_t \<Rightarrow> idx_t \<Rightarrow> ColumnDataCollection list
   \<Rightarrow> (idx_t \<times> ColumnDataCollection) list \<times> idx_t \<times> ColumnDataCollection list" where
  "gather_collections [] min_index max_batch_index collections =
     ([], max_batch_index, collections)"
| "gather_collections (entry # rest) min_index max_batch_index collections =
     (if fst entry \<ge> min_index then (entry # rest, max_batch_index, collections)
      else gather_collections rest min_index (fst entry) (collections @ [snd entry]))"

text \<open>
  \<^verbatim>\<open>gstate.AddTask(make_uniq<PrepareBatchTask>(gstate.scheduled_batch_index++, ...))\<close>.
\<close>

definition schedule_prepare ::
  "('pd, 'gs) FixedBatchCopyGlobalState \<Rightarrow> ColumnDataCollection
   \<Rightarrow> ('pd, 'gs) FixedBatchCopyGlobalState" where
  "schedule_prepare g collection_p =
     AddTask (g\<lparr>scheduled_batch_index := scheduled_batch_index g + 1\<rparr>)
       (PrepareBatchTask (scheduled_batch_index g) collection_p)"

text \<open>The loop over the chunks of one collection, lines 531 to 543.\<close>

fun append_chunks ::
  "('pd, 'gs) FixedBatchCopyGlobalState \<Rightarrow> ColumnDataCollection \<Rightarrow> DataChunk list
   \<Rightarrow> ('pd, 'gs) FixedBatchCopyGlobalState \<times> ColumnDataCollection" where
  "append_chunks g current_collection [] = (g, current_collection)"
| "append_chunks g current_collection (chunk # rest) =
     (let current1 = Append current_collection chunk in
      if Count current1 < batch_size g then append_chunks g current1 rest
      else append_chunks (schedule_prepare g current1) [] rest)"

text \<open>
  The loop over the gathered collections, lines 505 to 544. \<open>current_collection\<close> is
  \<open>None\<close> while the pointer is null.
\<close>

fun repartition_collections ::
  "('pd, 'gs) FixedBatchCopyGlobalState \<Rightarrow> ColumnDataCollection option
   \<Rightarrow> ColumnDataCollection list
   \<Rightarrow> ('pd, 'gs) FixedBatchCopyGlobalState \<times> ColumnDataCollection option" where
  "repartition_collections g current_collection [] = (g, current_collection)"
| "repartition_collections g current_collection (collection_p # rest) =
     (case current_collection of
        None \<Rightarrow>
          if CorrectSizeForBatch (Count collection_p) (batch_size g) then
            repartition_collections (schedule_prepare g collection_p) None rest
          else if Count collection_p < batch_size g then
            repartition_collections g (Some collection_p) rest
          else
            repartition_collections
              (fst (append_chunks g [] (Chunks collection_p)))
              (Some (snd (append_chunks g [] (Chunks collection_p)))) rest
      | Some current \<Rightarrow>
          repartition_collections
            (fst (append_chunks g current (Chunks collection_p)))
            (Some (snd (append_chunks g current (Chunks collection_p)))) rest)"

definition RepartitionBatches ::
  "('pd, 'gs) PhysicalFixedBatchCopy \<Rightarrow> ('pd, 'gs) FixedBatchCopyGlobalState \<Rightarrow> idx_t \<Rightarrow> bool
   \<Rightarrow> ('pd, 'gs) FixedBatchCopyGlobalState" where
  "RepartitionBatches op g min_index final =
     (if raw_batches g = [] then g
      else if \<not> final \<and> any_finished g then g
      else if \<not> final \<and> candidate_rows_loop (raw_batches g) min_index 0 < batch_size g then g
      else
        let gathered = gather_collections (raw_batches g) min_index 0 [];
            max_batch_index = fst (snd gathered);
            collections = snd (snd gathered);
            g1 = g\<lparr>raw_batches := fst gathered\<rparr>;
            r = repartition_collections g1 None collections;
            g2 = fst r
        in case snd r of
             None \<Rightarrow> g2
           | Some current \<Rightarrow>
               if Count current > 0 then
                 (if final \<or> CorrectSizeForBatch (Count current) (batch_size g2)
                  then schedule_prepare g2 current
                  else g2\<lparr>raw_batches := map_assign max_batch_index current (raw_batches g2)\<rparr>)
               else g2)"

subsection \<open>Sink\<close>

text \<open>
  The block of \<^verbatim>\<open>Sink\<close> for a producer that is processing tasks (lines 256 to 269).
  The first component of the result is \<open>Some BLOCKED\<close> when \<^verbatim>\<open>Sink\<close> returns from inside
  the block, and \<open>None\<close> when control goes on behind it.
\<close>

definition Sink_processing_tasks ::
  "('pd, 'gs) PhysicalFixedBatchCopy \<Rightarrow> InterruptState \<Rightarrow> idx_t \<Rightarrow> FixedBatchCopyLocalState
   \<Rightarrow> ('pd, 'gs) FixedBatchCopyGlobalState
   \<Rightarrow> error + SinkResultType option \<times> FixedBatchCopyLocalState
             \<times> ('pd, 'gs) FixedBatchCopyGlobalState" where
  "Sink_processing_tasks op interrupt_state batch_index_p state gstate =
     (case ExecuteTasks op gstate of
        Inl e \<Rightarrow> Inl e
      | Inr g1 \<Rightarrow>
          (case FlushBatchData op g1 (min_batch_index g1) of
             Inl e \<Rightarrow> Inl e
           | Inr g2 \<Rightarrow>
               if batch_index_p > min_batch_index g2
                  \<and> fst (OutOfMemory g2 batch_index_p) then
                 (let g3 = snd (OutOfMemory g2 batch_index_p) in
                  if batch_index_p > min_batch_index g3
                  then Inr (Some BLOCKED, state, BlockTask g3 interrupt_state)
                  else Inr (None, state\<lparr>current_task := SINKING_DATA\<rparr>, g3))
               else
                 Inr (None, state\<lparr>current_task := SINKING_DATA\<rparr>,
                      if batch_index_p > min_batch_index g2
                      then snd (OutOfMemory g2 batch_index_p) else g2)))"

text \<open>The end of \<^verbatim>\<open>Sink\<close>, lines 281 to 295: the chunk is appended.\<close>

definition Sink_append ::
  "DataChunk \<Rightarrow> idx_t \<Rightarrow> FixedBatchCopyLocalState \<Rightarrow> ('pd, 'gs) FixedBatchCopyGlobalState
   \<Rightarrow> error + SinkResultType \<times> FixedBatchCopyLocalState
             \<times> ('pd, 'gs) FixedBatchCopyGlobalState" where
  "Sink_append chunk batch_index_p state gstate =
     (let s1 = (if collection state = None
                then (InitializeCollection state)\<lparr>batch_index := Some batch_index_p\<rparr>
                else state);
          s2 = s1\<lparr>local_rows_copied := local_rows_copied s1 + chunk_size chunk\<rparr>
      in case collection s2 of
           None \<Rightarrow> Inl NullPointer
         | Some c \<Rightarrow>
             (let s3 = s2\<lparr>collection := Some (Append c chunk)\<rparr>;
                  new_memory_usage = SizeInBytes (Append c chunk)
              in if new_memory_usage > local_memory_usage s3 then
                   Inr (NEED_MORE_INPUT, s3\<lparr>local_memory_usage := new_memory_usage\<rparr>,
                        gstate\<lparr>unflushed_memory_usage :=
                                 unflushed_memory_usage gstate
                                 + (new_memory_usage - local_memory_usage s3)\<rparr>)
                 else if new_memory_usage < local_memory_usage s3 then
                   Inl MemoryUsageDecreased
                 else
                   Inr (NEED_MORE_INPUT, s3\<lparr>local_memory_usage := new_memory_usage\<rparr>, gstate)))"

lemma UpdateMinBatchIndex_memory:
  "unflushed_memory_usage (UpdateMinBatchIndex g m) = unflushed_memory_usage g
   \<and> available_memory (UpdateMinBatchIndex g m) = available_memory g"
  by (simp add: UpdateMinBatchIndex_def UnblockTasksInternal_def Let_def)

lemma OutOfMemory_min_batch_index:
  "min_batch_index (snd (OutOfMemory g b)) = min_batch_index g"
  by (simp add: OutOfMemory_def IncreaseMemory_def SetMemorySize_def Let_def)

lemma OutOfMemory_False_memory:
  "b > min_batch_index g \<Longrightarrow> \<not> fst (OutOfMemory g b) \<Longrightarrow>
   unflushed_memory_usage (snd (OutOfMemory g b)) < available_memory (snd (OutOfMemory g b))"
  by (auto simp: OutOfMemory_def Let_def split: if_splits)

lemma OutOfMemory_not_out:
  "unflushed_memory_usage g < available_memory g \<Longrightarrow> OutOfMemory g b = (False, g)"
  by (auto simp: OutOfMemory_def)

lemma Sink_processing_tasks_continues:
  assumes "Sink_processing_tasks op i b state gstate = Inr (None, s1, g1)"
    and "b > min_batch_index g1"
  shows "unflushed_memory_usage g1 < available_memory g1"
  using assms
  unfolding Sink_processing_tasks_def
  by (auto simp: Let_def OutOfMemory_min_batch_index split: sum.splits if_splits
           dest: OutOfMemory_False_memory)

text \<open>
  \<^verbatim>\<open>Sink\<close>. A producer that is out of memory turns to the tasks and calls \<^verbatim>\<open>Sink\<close>
  again; the second call either blocks or finds memory, so the recursion ends.
\<close>

function Sink ::
  "('pd, 'gs) PhysicalFixedBatchCopy \<Rightarrow> DataChunk \<Rightarrow> InterruptState \<Rightarrow> FixedBatchCopyLocalState
   \<Rightarrow> ('pd, 'gs) FixedBatchCopyGlobalState
   \<Rightarrow> error + SinkResultType \<times> FixedBatchCopyLocalState
             \<times> ('pd, 'gs) FixedBatchCopyGlobalState" where
  "Sink op chunk interrupt_state state gstate =
     (case GetIndex (partition_batch_index state) of
        Inl e \<Rightarrow> Inl e
      | Inr batch_index_p \<Rightarrow>
          (case (if current_task state = PROCESSING_TASKS
                 then Sink_processing_tasks op interrupt_state batch_index_p state gstate
                 else Inr (None, state, gstate)) of
             Inl e \<Rightarrow> Inl e
           | Inr r \<Rightarrow>
               (case fst r of
                  Some result \<Rightarrow> Inr (result, snd r)
                | None \<Rightarrow>
                    if batch_index_p > min_batch_index (snd (snd r)) then
                      (case GetIndex (partition_min_batch_index (fst (snd r))) of
                         Inl e \<Rightarrow> Inl e
                       | Inr m \<Rightarrow>
                           if fst (OutOfMemory (UpdateMinBatchIndex (snd (snd r)) m) batch_index_p)
                           then
                             Sink op chunk interrupt_state
                               ((fst (snd r))\<lparr>current_task := PROCESSING_TASKS\<rparr>)
                               (snd (OutOfMemory (UpdateMinBatchIndex (snd (snd r)) m)
                                      batch_index_p))
                           else
                             Sink_append chunk batch_index_p (fst (snd r))
                               (snd (OutOfMemory (UpdateMinBatchIndex (snd (snd r)) m)
                                      batch_index_p)))
                    else Sink_append chunk batch_index_p (fst (snd r)) (snd (snd r)))))"
  by pat_completeness auto
termination
proof (relation "measure (\<lambda>(op, chunk, i, state, g). if current_task state = SINKING_DATA then 1 else 0)")
  show "wf (measure (\<lambda>(op, chunk, i, state, g). if current_task state = SINKING_DATA then 1 else (0::nat)))"
    by simp
next
  fix op :: "('pd, 'gs) PhysicalFixedBatchCopy" and chunk :: DataChunk and interrupt_state :: InterruptState
    and state :: FixedBatchCopyLocalState and gstate :: "('pd, 'gs) FixedBatchCopyGlobalState"
    and b r m
  assume gi: "GetIndex (partition_batch_index state) = Inr b"
    and r: "(if current_task state = PROCESSING_TASKS
             then Sink_processing_tasks op interrupt_state b state gstate
             else Inr (None, state, gstate)) = Inr r"
    and none: "fst r = None"
    and gt: "min_batch_index (snd (snd r)) < b"
    and oom: "fst (OutOfMemory (UpdateMinBatchIndex (snd (snd r)) m) b)"
  have "current_task state \<noteq> PROCESSING_TASKS"
  proof
    assume p: "current_task state = PROCESSING_TASKS"
    with r none have "Sink_processing_tasks op interrupt_state b state gstate
        = Inr (None, fst (snd r), snd (snd r))"
      by (cases r) auto
    from Sink_processing_tasks_continues[OF this gt]
    have "unflushed_memory_usage (UpdateMinBatchIndex (snd (snd r)) m)
          < available_memory (UpdateMinBatchIndex (snd (snd r)) m)"
      by (simp add: UpdateMinBatchIndex_memory)
    from OutOfMemory_not_out[OF this] oom show False by simp
  qed
  then have "current_task state = SINKING_DATA" by (cases "current_task state") auto
  then show "((op, chunk, interrupt_state, fst (snd r)\<lparr>current_task := PROCESSING_TASKS\<rparr>,
        snd (OutOfMemory (UpdateMinBatchIndex (snd (snd r)) m) b)),
       op, chunk, interrupt_state, state, gstate)
      \<in> measure (\<lambda>(op, chunk, i, state, g). if current_task state = SINKING_DATA then 1 else 0)"
    by simp
qed

declare Sink.simps [simp del]

subsection \<open>Combine, NextBatch and Finalize\<close>

definition Combine ::
  "('pd, 'gs) PhysicalFixedBatchCopy \<Rightarrow> FixedBatchCopyLocalState
   \<Rightarrow> ('pd, 'gs) FixedBatchCopyGlobalState \<Rightarrow> error + ('pd, 'gs) FixedBatchCopyGlobalState" where
  "Combine op state gstate =
     (let g1 = gstate\<lparr>rows_copied := rows_copied gstate + local_rows_copied state\<rparr>;
          g2 = (if \<not> any_finished g1 then g1\<lparr>any_finished := True\<rparr> else g1)
      in case GetIndex (partition_min_batch_index state) of
           Inl e \<Rightarrow> Inl e
         | Inr m \<Rightarrow> ExecuteTasks op (UpdateMinBatchIndex g2 m))"

text \<open>
  \<^verbatim>\<open>FinalFlush\<close>. \<^verbatim>\<open>copy_to_finalize\<close> is called when it is not null, and the
  temporary file is moved only then.
\<close>

definition FinalFlush ::
  "('pd, 'gs) PhysicalFixedBatchCopy \<Rightarrow> ('pd, 'gs) FixedBatchCopyGlobalState
   \<Rightarrow> error + ('pd, 'gs) FixedBatchCopyGlobalState" where
  "FinalFlush op gstate =
     (if TaskCount gstate \<noteq> 0 then Inl UnexecutedTasksRemaining
      else
        (case FlushBatchData op gstate INT64_MAXIMUM of
           Inl e \<Rightarrow> Inl e
         | Inr g1 \<Rightarrow>
             if scheduled_batch_index g1 \<noteq> flushed_batch_index g1
             then Inl NotAllBatchesFlushed
             else
               (case copy_to_finalize (copy_function op) of
                  None \<Rightarrow> Inr g1
                | Some finalize \<Rightarrow>
                    (case finalize (global_state g1) of
                       Inl e \<Rightarrow> Inl e
                     | Inr gs \<Rightarrow>
                         Inr (if use_tmp_file op
                              then g1\<lparr>global_state := gs, tmp_file_moved := True\<rparr>
                              else g1\<lparr>global_state := gs\<rparr>)))))"

text \<open>
  \<^verbatim>\<open>ProcessRemainingBatchesEvent\<close>: \<^verbatim>\<open>Schedule\<close> creates one task per thread of the
  scheduler and \<^verbatim>\<open>FinishEvent\<close> runs \<^verbatim>\<open>FinalFlush\<close> when all are done. The workers run
  one after the other here.
\<close>

fun run_workers ::
  "nat \<Rightarrow> ('pd, 'gs) PhysicalFixedBatchCopy \<Rightarrow> ('pd, 'gs) FixedBatchCopyGlobalState
   \<Rightarrow> error + ('pd, 'gs) FixedBatchCopyGlobalState" where
  "run_workers 0 op g = Inr g"
| "run_workers (Suc n) op g =
     (case ProcessRemainingBatchesTask op g of
        Inl e \<Rightarrow> Inl e
      | Inr g1 \<Rightarrow> run_workers n op g1)"

definition ProcessRemainingBatchesEvent ::
  "('pd, 'gs) PhysicalFixedBatchCopy \<Rightarrow> ('pd, 'gs) FixedBatchCopyGlobalState
   \<Rightarrow> error + ('pd, 'gs) FixedBatchCopyGlobalState" where
  "ProcessRemainingBatchesEvent op gstate =
     (case run_workers (number_of_threads (client_context gstate)) op gstate of
        Inl e \<Rightarrow> Inl e
      | Inr g1 \<Rightarrow> FinalFlush op g1)"

definition Finalize ::
  "('pd, 'gs) PhysicalFixedBatchCopy \<Rightarrow> ('pd, 'gs) FixedBatchCopyGlobalState
   \<Rightarrow> error + ('pd, 'gs) FixedBatchCopyGlobalState" where
  "Finalize op gstate =
     (let g1 = RepartitionBatches op gstate INT64_MAXIMUM True in
      if TaskCount g1 \<le> 1 then
        (case ExecuteTasks op g1 of
           Inl e \<Rightarrow> Inl e
         | Inr g2 \<Rightarrow> FinalFlush op g2)
      else ProcessRemainingBatchesEvent op g1)"

text \<open>
  \<^verbatim>\<open>NextBatch\<close>. The first block (lines 624 to 642) hands a collection that has rows to
  the raw batches; \<^verbatim>\<open>std::move\<close> leaves the producer's pointer null.
\<close>

definition NextBatch_publish ::
  "('pd, 'gs) PhysicalFixedBatchCopy \<Rightarrow> ColumnDataCollection \<Rightarrow> FixedBatchCopyLocalState
   \<Rightarrow> ('pd, 'gs) FixedBatchCopyGlobalState
   \<Rightarrow> error + FixedBatchCopyLocalState \<times> ('pd, 'gs) FixedBatchCopyGlobalState" where
  "NextBatch_publish op collection_p state gstate =
     (case GetIndex (partition_min_batch_index state) of
        Inl e \<Rightarrow> Inl e
      | Inr min_batch_index_p \<Rightarrow>
          (case GetIndex (batch_index state) of
             Inl e \<Rightarrow> Inl e
           | Inr batch_index_p \<Rightarrow>
               (case AddRawBatchData gstate batch_index_p collection_p of
                  Inl e \<Rightarrow> Inl e
                | Inr g1 \<Rightarrow>
                    (let g2 = RepartitionBatches op g1 min_batch_index_p False;
                         any_unblocked = fst (UnblockTasks g2);
                         g3 = snd (UnblockTasks g2);
                         s1 = state\<lparr>collection := None\<rparr>
                     in if \<not> any_unblocked then
                          (case ExecuteTask op g3 of
                             Inl e \<Rightarrow> Inl e
                           | Inr r \<Rightarrow>
                               (case FlushBatchData op (snd r) (min_batch_index (snd r)) of
                                  Inl e \<Rightarrow> Inl e
                                | Inr g5 \<Rightarrow> Inr (s1, g5)))
                        else Inr (s1, g3)))))"

definition NextBatch ::
  "('pd, 'gs) PhysicalFixedBatchCopy \<Rightarrow> FixedBatchCopyLocalState
   \<Rightarrow> ('pd, 'gs) FixedBatchCopyGlobalState
   \<Rightarrow> error + FixedBatchCopyLocalState \<times> ('pd, 'gs) FixedBatchCopyGlobalState" where
  "NextBatch op state gstate =
     (case (case collection state of
              None \<Rightarrow> Inr (state, gstate)
            | Some c \<Rightarrow>
                if Count c > 0 then NextBatch_publish op c state gstate
                else Inr (state, gstate)) of
        Inl e \<Rightarrow> Inl e
      | Inr r \<Rightarrow>
          (case GetIndex (partition_min_batch_index (fst r)) of
             Inl e \<Rightarrow> Inl e
           | Inr m \<Rightarrow>
               (case GetIndex (partition_batch_index (fst r)) of
                  Inl e \<Rightarrow> Inl e
                | Inr b \<Rightarrow>
                    Inr (InitializeCollection ((fst r)\<lparr>batch_index := Some b\<rparr>),
                         UpdateMinBatchIndex (snd r) m))))"

subsection \<open>The initial states\<close>

text \<open>
  \<^verbatim>\<open>GetGlobalSinkState\<close>. The constructor of the state gives \<^verbatim>\<open>available_memory\<close> no
  value, and the first \<^verbatim>\<open>SetMemorySize\<close> reads it: \<open>indeterminate\<close> is that value.
\<close>

definition GetGlobalSinkState ::
  "('pd, 'gs) PhysicalFixedBatchCopy \<Rightarrow> ClientContext \<Rightarrow> idx_t
   \<Rightarrow> error + ('pd, 'gs) FixedBatchCopyGlobalState" where
  "GetGlobalSinkState op ctx indeterminate =
     (case copy_to_initialize_global (copy_function op) of
        None \<Rightarrow> Inl NullPointer
      | Some gs \<Rightarrow>
          (case desired_batch_size (copy_function op) of
             None \<Rightarrow> Inl NullPointer
           | Some desired \<Rightarrow>
               (let result =
                      \<lparr>client_context = ctx, rows_copied = 0, global_state = gs,
                       batch_size = desired, raw_batches = [], batch_data = [],
                       scheduled_batch_index = 0, flushed_batch_index = 0,
                       any_flushing = False, any_finished = False,
                       memory_state = Register ctx,
                       minimum_memory_per_thread =
                         MINIMUM_MEMORY_PER_COLUMN_PER_THREAD * column_count op,
                       unflushed_memory_usage = 0, min_batch_index = 0,
                       available_memory = indeterminate, blocked_tasks = [],
                       can_increase_memory = True, task_queue = [],
                       flush_trace = [], woken = [], tmp_file_moved = False\<rparr>
                in Inr (SetMemorySize result (minimum_memory_per_thread result)))))"

text \<open>
  \<^verbatim>\<open>GetLocalSinkState\<close>. The local data of the copy function
  (\<^verbatim>\<open>copy_to_initialize_local\<close>) is not read by the operator and is left out; the
  partition info is not set yet.
\<close>

definition GetLocalSinkState :: "FixedBatchCopyLocalState" where
  "GetLocalSinkState =
     \<lparr>collection = None, local_rows_copied = 0, local_memory_usage = 0, batch_index = None,
      current_task = SINKING_DATA, partition_batch_index = None,
      partition_min_batch_index = None\<rparr>"

subsection \<open>A recording sink\<close>

text \<open>
  The sink of the scenarios of section 8 of the specification: it records the row count
  of every collection it prepares and of every batch it flushes. The prepared batch is
  the row count of its collection.
\<close>

record RecordingSink =
  prepared_rows :: "idx_t list"
  flushed_rows :: "idx_t list"
  finalized :: bool

definition recording_function :: "(idx_t, RecordingSink) CopyFunction" where
  "recording_function =
     \<lparr>desired_batch_size = Some 1000,
      copy_to_initialize_global =
        Some \<lparr>prepared_rows = [], flushed_rows = [], finalized = False\<rparr>,
      prepare_batch =
        Some (\<lambda>gs c. Inr (Count c, gs\<lparr>prepared_rows := prepared_rows gs @ [Count c]\<rparr>)),
      flush_batch = Some (\<lambda>gs pd. Inr (gs\<lparr>flushed_rows := flushed_rows gs @ [pd]\<rparr>)),
      copy_to_finalize = Some (\<lambda>gs. Inr (gs\<lparr>finalized := True\<rparr>))\<rparr>"

definition recording_op :: "(idx_t, RecordingSink) PhysicalFixedBatchCopy" where
  "recording_op = \<lparr>copy_function = recording_function, column_count = 1, use_tmp_file = False\<rparr>"

text \<open>A context with 1 GiB of query memory, two threads and a broker that grants all.\<close>

definition generous_context :: ClientContext where
  "generous_context =
     \<lparr>query_max_memory = 1073741824, number_of_threads = 2, grant = (\<lambda>ms sz. sz)\<rparr>"

text \<open>The state \<^verbatim>\<open>GetGlobalSinkState\<close> builds for this operator in this context.\<close>

definition recording_state :: "(idx_t, RecordingSink) FixedBatchCopyGlobalState" where
  "recording_state =
     \<lparr>client_context = generous_context, rows_copied = 0,
      global_state = \<lparr>prepared_rows = [], flushed_rows = [], finalized = False\<rparr>,
      batch_size = 1000, raw_batches = [], batch_data = [],
      scheduled_batch_index = 0, flushed_batch_index = 0,
      any_flushing = False, any_finished = False,
      memory_state = \<lparr>remaining_size = 4194304, reservation = 4194304, requests = [4194304]\<rparr>,
      minimum_memory_per_thread = 4194304,
      unflushed_memory_usage = 0, min_batch_index = 0,
      available_memory = 4194304, blocked_tasks = [],
      can_increase_memory = True, task_queue = [],
      flush_trace = [], woken = [], tmp_file_moved = False\<rparr>"

subsection \<open>One producer\<close>

text \<open>
  The executor for a single producer, as in the scenarios of section 8 of the
  specification: it sinks the chunks of batch 0, announces batch 1 (the partition info is
  then 1 for both indices) and finalizes. A producer that is blocked would be called
  again later; with one producer that does not happen, and the run stops there.
\<close>

fun sink_all ::
  "('pd, 'gs) PhysicalFixedBatchCopy \<Rightarrow> DataChunk list \<Rightarrow> FixedBatchCopyLocalState
   \<Rightarrow> ('pd, 'gs) FixedBatchCopyGlobalState
   \<Rightarrow> error + SinkResultType \<times> FixedBatchCopyLocalState
             \<times> ('pd, 'gs) FixedBatchCopyGlobalState" where
  "sink_all op [] state gstate = Inr (NEED_MORE_INPUT, state, gstate)"
| "sink_all op (chunk # chunks) state gstate =
     (case Sink op chunk 0 state gstate of
        Inl e \<Rightarrow> Inl e
      | Inr r \<Rightarrow>
          if fst r = BLOCKED then Inr r
          else sink_all op chunks (fst (snd r)) (snd (snd r)))"

definition batch_0_then_next_batch ::
  "DataChunk list
   \<Rightarrow> error + FixedBatchCopyLocalState \<times> (idx_t, RecordingSink) FixedBatchCopyGlobalState" where
  "batch_0_then_next_batch chunks =
     (case GetGlobalSinkState recording_op generous_context 0 of
        Inl e \<Rightarrow> Inl e
      | Inr g0 \<Rightarrow>
          (case sink_all recording_op chunks
                  (GetLocalSinkState\<lparr>partition_batch_index := Some 0,
                                      partition_min_batch_index := Some 0\<rparr>) g0 of
             Inl e \<Rightarrow> Inl e
           | Inr r \<Rightarrow>
               NextBatch recording_op
                 ((fst (snd r))\<lparr>partition_batch_index := Some 1,
                                 partition_min_batch_index := Some 1\<rparr>)
                 (snd (snd r))))"

definition batch_0_then_finalize ::
  "DataChunk list \<Rightarrow> error + (idx_t, RecordingSink) FixedBatchCopyGlobalState" where
  "batch_0_then_finalize chunks =
     (case batch_0_then_next_batch chunks of
        Inl e \<Rightarrow> Inl e
      | Inr r \<Rightarrow> Finalize recording_op (snd r))"

text \<open>The same run with \<^verbatim>\<open>Combine\<close> for the producer before \<^verbatim>\<open>Finalize\<close>.\<close>

definition batch_0_combine_finalize ::
  "DataChunk list \<Rightarrow> error + (idx_t, RecordingSink) FixedBatchCopyGlobalState" where
  "batch_0_combine_finalize chunks =
     (case batch_0_then_next_batch chunks of
        Inl e \<Rightarrow> Inl e
      | Inr r \<Rightarrow>
          (case Combine recording_op (fst r) (snd r) of
             Inl e \<Rightarrow> Inl e
           | Inr g \<Rightarrow> Finalize recording_op g))"

text \<open>
  3500 rows of 8 bytes each, once in chunks that end at the multiples of 1000 and once in
  chunks that are filled up to \<^verbatim>\<open>STANDARD_VECTOR_SIZE\<close>.
\<close>

definition rows_3500_aligned :: "DataChunk list" where
  "rows_3500_aligned =
     [\<lparr>chunk_size = 1000, chunk_bytes = 8000\<rparr>, \<lparr>chunk_size = 1000, chunk_bytes = 8000\<rparr>,
      \<lparr>chunk_size = 1000, chunk_bytes = 8000\<rparr>, \<lparr>chunk_size = 500, chunk_bytes = 4000\<rparr>]"

definition rows_3500_full_vectors :: "DataChunk list" where
  "rows_3500_full_vectors =
     [\<lparr>chunk_size = 2048, chunk_bytes = 16384\<rparr>, \<lparr>chunk_size = 1452, chunk_bytes = 11616\<rparr>]"

text \<open>The same rows in seven chunks of 500 rows.\<close>

definition rows_3500_halves :: "DataChunk list" where
  "rows_3500_halves = replicate 7 \<lparr>chunk_size = 500, chunk_bytes = 4000\<rparr>"

subsection \<open>Predicates of the properties\<close>

text \<open>Two states with the same \<^verbatim>\<open>min_batch_index\<close> and the same blocked tasks.\<close>

definition same_producers ::
  "('pd, 'gs) FixedBatchCopyGlobalState \<Rightarrow> ('pd, 'gs) FixedBatchCopyGlobalState \<Rightarrow> bool" where
  "same_producers g g' =
     (min_batch_index g' = min_batch_index g \<and> blocked_tasks g' = blocked_tasks g)"







text \<open>The rows a task holds, and the rows of a queue and of the raw batches.\<close>

fun task_rows :: "BatchCopyTask \<Rightarrow> idx_t" where
  "task_rows (PrepareBatchTask i c) = Count c"
| "task_rows RepartitionedFlushTask = 0"

definition queued_rows :: "('pd, 'gs) FixedBatchCopyGlobalState \<Rightarrow> idx_t" where
  "queued_rows g = sum_list (map task_rows (task_queue g))"

definition raw_rows :: "(idx_t \<times> ColumnDataCollection) list \<Rightarrow> idx_t" where
  "raw_rows m = sum_list (map (\<lambda>e. Count (snd e)) m)"

definition current_rows :: "ColumnDataCollection option \<Rightarrow> idx_t" where
  "current_rows current = (case current of None \<Rightarrow> 0 | Some c \<Rightarrow> Count c)"

text \<open>
  The rows and the bytes of a collection as natural numbers (the sums without the
  wrap-around of \<^verbatim>\<open>idx_t\<close>), and the row counts of the prefixes of its chunk list: the
  row offsets at which a chunk ends.
\<close>

definition rows_nat :: "DataChunk list \<Rightarrow> nat" where
  "rows_nat c = sum_list (map (\<lambda>chunk. unat (chunk_size chunk)) c)"

definition bytes_nat :: "DataChunk list \<Rightarrow> nat" where
  "bytes_nat c = sum_list (map (\<lambda>chunk. unat (chunk_bytes chunk)) c)"

definition partial_rows :: "DataChunk list \<Rightarrow> nat list" where
  "partial_rows c = map (\<lambda>k. rows_nat (take k c)) [0..<Suc (length c)]"






section \<open>Properties\<close>

subsection \<open>Evaluation of the recording sink\<close>

lemma GetGlobalSinkState_recording:
  "GetGlobalSinkState recording_op generous_context 0 = Inr recording_state"
  by (simp add: GetGlobalSinkState_def recording_op_def recording_function_def
        generous_context_def recording_state_def SetMemorySize_def Let_def
        MINIMUM_MEMORY_PER_COLUMN_PER_THREAD_def Register_def SetRemainingSize_def
        GetReservation_def GetQueryMaxMemory_def)



subsection \<open>FlushBatchData: an entry below the flushed batch index\<close>

lemma FlushBatchData_loop_not_out_of_order:
  "\<forall>flush gs pd. flush_batch (copy_function op) = Some flush
      \<longrightarrow> flush gs pd \<noteq> Inl BatchIndexOutOfOrder \<Longrightarrow>
   FlushBatchData_loop op g \<noteq> Inl BatchIndexOutOfOrder"
proof (induction op g rule: FlushBatchData_loop.induct)
  case (1 op g)
  show ?case
  proof (cases "batch_data g")
    case Nil
    then show ?thesis by (simp add: FlushBatchData_loop.simps[of op g])
  next
    case (Cons entry rest)
    show ?thesis
    proof (cases "fst entry = flushed_batch_index g")
      case False
      with Cons show ?thesis by (simp add: FlushBatchData_loop.simps[of op g])
    next
      case True
      then have nlt: "\<not> fst entry < flushed_batch_index g" by simp
      show ?thesis
      proof (cases "flush_batch (copy_function op)")
        case None
        with Cons True show ?thesis by (simp add: FlushBatchData_loop.simps[of op g])
      next
        case (Some flush)
        show ?thesis
        proof (cases "flush (global_state g) (prepared_data (snd entry))")
          case (Inl e)
          with "1.prems" Some have "e \<noteq> BatchIndexOutOfOrder" by auto
          with Cons True Some Inl show ?thesis
            by (simp add: FlushBatchData_loop.simps[of op g])
        next
          case (Inr gs)
          from "1.IH"[OF Cons _ nlt Some Inr "1.prems"] Cons True Some Inr
          show ?thesis by (simp add: FlushBatchData_loop.simps[of op g])
        qed
      qed
    qed
  qed
qed

text \<open>
  The error "Batch index was out of order" is never raised by \<^verbatim>\<open>FlushBatchData\<close> itself:
  the test that guards it comes behind the test for inequality. It can only come out of
  the callback \<^verbatim>\<open>flush_batch\<close>.
\<close>

theorem FlushBatchData_not_out_of_order:
  assumes "\<forall>flush gs pd. flush_batch (copy_function op) = Some flush
             \<longrightarrow> flush gs pd \<noteq> Inl BatchIndexOutOfOrder"
  shows "FlushBatchData op g min_index \<noteq> Inl BatchIndexOutOfOrder"
  using FlushBatchData_loop_not_out_of_order[OF assms, of "g\<lparr>any_flushing := True\<rparr>"]
  by (auto simp: FlushBatchData_def split: sum.splits)

theorem FlushBatchData_not_out_of_order_witness:
  "FlushBatchData recording_op
     (recording_state
        \<lparr>batch_data := [(0, \<lparr>memory_usage = 0, prepared_data = 1000\<rparr>),
                        (2, \<lparr>memory_usage = 0, prepared_data = 500\<rparr>)],
         flushed_batch_index := 1, scheduled_batch_index := 3\<rparr>) 0
     \<noteq> Inl BatchIndexOutOfOrder"
proof (rule FlushBatchData_not_out_of_order)
  show "\<forall>flush gs pd. flush_batch (copy_function recording_op) = Some flush
             \<longrightarrow> flush gs pd \<noteq> Inl BatchIndexOutOfOrder"
    by (auto simp: recording_op_def recording_function_def)
qed

subsection \<open>FlushBatchData: the order of the flushes\<close>

lemma FlushBatchData_loop_in_order:
  "FlushBatchData_loop op g = Inr g' \<Longrightarrow>
   \<exists>n. flush_trace g' = flush_trace g @ map (\<lambda>i. flushed_batch_index g + of_nat i) [0..<n]
       \<and> flushed_batch_index g' = flushed_batch_index g + of_nat n"
proof (induction op g rule: FlushBatchData_loop.induct)
  case (1 op g)
  have stop: ?case if "g' = g"
    using that by (intro exI[of _ 0]) simp
  show ?case
  proof (cases "batch_data g")
    case Nil
    with "1.prems" show ?thesis by (intro stop) (simp add: FlushBatchData_loop.simps[of op g])
  next
    case (Cons entry rest)
    show ?thesis
    proof (cases "fst entry = flushed_batch_index g")
      case False
      with Cons "1.prems" show ?thesis
        by (intro stop) (simp add: FlushBatchData_loop.simps[of op g])
    next
      case True
      then have nlt: "\<not> fst entry < flushed_batch_index g" by simp
      from Cons True "1.prems" obtain flush gs where
        fl: "flush_batch (copy_function op) = Some flush"
        and fg: "flush (global_state g) (prepared_data (snd entry)) = Inr gs"
        by (auto simp: FlushBatchData_loop.simps[of op g] split: option.splits sum.splits)
      define g1 where "g1 = g\<lparr>batch_data := rest, global_state := gs,
                           flush_trace := flush_trace g @ [flushed_batch_index g],
                           unflushed_memory_usage :=
                             unflushed_memory_usage g - memory_usage (snd entry),
                           flushed_batch_index := flushed_batch_index g + 1\<rparr>"
      from Cons True fl fg "1.prems" have "FlushBatchData_loop op g1 = Inr g'"
        by (simp add: FlushBatchData_loop.simps[of op g] g1_def)
      from "1.IH"[OF Cons _ nlt fl fg, folded g1_def, OF _ this] True
      obtain n where
        n: "flush_trace g' = flush_trace g1 @ map (\<lambda>i. flushed_batch_index g1 + of_nat i) [0..<n]"
           "flushed_batch_index g' = flushed_batch_index g1 + of_nat n"
        by auto
      have "map (\<lambda>i. flushed_batch_index g + of_nat i) [0..<Suc n]
            = flushed_batch_index g # map (\<lambda>i. flushed_batch_index g + 1 + of_nat i) [0..<n]"
        by (simp add: upt_conv_Cons map_Suc_upt[symmetric] add.assoc add.commute del: upt_Suc)
      with n show ?thesis
        by (intro exI[of _ "Suc n"]) (simp add: g1_def add.assoc add.commute del: upt_Suc)
    qed
  qed
qed

text \<open>
  \<^verbatim>\<open>FlushBatchData\<close> flushes consecutive batch indices, starting at
  \<^verbatim>\<open>flushed_batch_index\<close>, and \<^verbatim>\<open>flushed_batch_index\<close> ends behind the last of them.
\<close>

theorem FlushBatchData_in_order:
  assumes "FlushBatchData op g min_index = Inr g'"
  shows "\<exists>n. flush_trace g' = flush_trace g @ map (\<lambda>i. flushed_batch_index g + of_nat i) [0..<n]
             \<and> flushed_batch_index g' = flushed_batch_index g + of_nat n"
proof (cases "any_flushing g")
  case True
  with assms have "g' = g" by (simp add: FlushBatchData_def)
  then show ?thesis by (intro exI[of _ 0]) simp
next
  case False
  with assms obtain g1 where l: "FlushBatchData_loop op (g\<lparr>any_flushing := True\<rparr>) = Inr g1"
    and g': "g' = g1\<lparr>any_flushing := False\<rparr>"
    by (auto simp: FlushBatchData_def split: sum.splits)
  from FlushBatchData_loop_in_order[OF l] g' show ?thesis by simp
qed

theorem FlushBatchData_in_order_witness:
  "FlushBatchData recording_op
     (recording_state
        \<lparr>batch_data := [(1, \<lparr>memory_usage = 0, prepared_data = 1000\<rparr>),
                        (2, \<lparr>memory_usage = 0, prepared_data = 900\<rparr>),
                        (4, \<lparr>memory_usage = 0, prepared_data = 500\<rparr>)],
         flushed_batch_index := 1, scheduled_batch_index := 5, flush_trace := [0]\<rparr>) 0
   = Inr (recording_state
        \<lparr>global_state := \<lparr>prepared_rows = [], flushed_rows = [1000, 900], finalized = False\<rparr>,
         batch_data := [(4, \<lparr>memory_usage = 0, prepared_data = 500\<rparr>)],
         flushed_batch_index := 3, scheduled_batch_index := 5, flush_trace := [0, 1, 2]\<rparr>)"
proof -
  have e: "FlushBatchData recording_op
     (recording_state
        \<lparr>batch_data := [(1, \<lparr>memory_usage = 0, prepared_data = 1000\<rparr>),
                        (2, \<lparr>memory_usage = 0, prepared_data = 900\<rparr>),
                        (4, \<lparr>memory_usage = 0, prepared_data = 500\<rparr>)],
         flushed_batch_index := 1, scheduled_batch_index := 5, flush_trace := [0]\<rparr>) 0
   = Inr (recording_state
        \<lparr>global_state := \<lparr>prepared_rows = [], flushed_rows = [1000, 900], finalized = False\<rparr>,
         batch_data := [(4, \<lparr>memory_usage = 0, prepared_data = 500\<rparr>)],
         flushed_batch_index := 3, scheduled_batch_index := 5, flush_trace := [0, 1, 2]\<rparr>)"
    by (simp add: FlushBatchData_def FlushBatchData_loop.simps recording_state_def
          recording_op_def recording_function_def)
  from FlushBatchData_in_order[OF e] e show ?thesis by simp
qed

subsection \<open>The constructor and the callbacks\<close>




subsection \<open>CorrectSizeForBatch\<close>

text \<open>A 64-bit value read as \<^verbatim>\<open>int64_t\<close>.\<close>

lemma sint_64:
  fixes w :: "64 word"
  shows "sint w = (if uint w < 2 ^ 63 then uint w else uint w - 2 ^ 64)"
proof (cases "uint w < 2 ^ 63")
  case True
  have "sint w = signed_take_bit 63 (uint w)" by (simp add: sint_uint)
  also have "\<dots> = uint w"
  proof (rule signed_take_bit_int_eq_self)
    have "- (2 ^ 63) \<le> (0::int)" by simp
    also have "0 \<le> uint w" by simp
    finally show "- (2 ^ 63) \<le> uint w" .
    show "uint w < 2 ^ 63" by (rule True)
  qed
  finally show ?thesis using True by simp
next
  case False
  have lt: "uint w < 2 ^ 64" using uint_lt2p[of w] by simp
  have "sint w = signed_take_bit 63 (uint w)" by (simp add: sint_uint)
  also have "\<dots> = take_bit 64 (uint w + 2 ^ 63) - 2 ^ 63"
    by (simp add: signed_take_bit_eq_take_bit_shift)
  also have "take_bit 64 (uint w + 2 ^ 63) = (uint w + 2 ^ 63) mod 2 ^ 64"
    by (simp add: take_bit_eq_mod)
  also have "\<dots> = uint w + 2 ^ 63 - 2 ^ 64"
  proof -
    have "(uint w + 2 ^ 63 - 2 ^ 64) mod 2 ^ 64 = uint w + 2 ^ 63 - 2 ^ 64"
      using False lt by (intro mod_pos_pos_trivial) simp_all
    moreover have "(uint w + 2 ^ 63 - 2 ^ 64) mod 2 ^ 64 = (uint w + 2 ^ 63) mod 2 ^ 64"
      by (rule minus_mod_self2)
    ultimately show ?thesis by simp
  qed
  finally show ?thesis using False by simp
qed

lemma uint_AbsValue:
  fixes c d :: idx_t
  assumes "uint c < 2 ^ 63" and "uint d < 2 ^ 63"
  shows "uint (AbsValue (c - d)) = \<bar>uint c - uint d\<bar>"
proof (cases "uint d \<le> uint c")
  case True
  then have u: "uint (c - d) = uint c - uint d" by (simp add: uint_sub_if')
  with assms True have "uint (c - d) < 2 ^ 63" using uint_ge_0[of d] by linarith
  then have "sint (c - d) = uint (c - d)" by (simp add: sint_64)
  then have "\<not> sint (c - d) < 0" by simp
  with u True show ?thesis by (simp add: AbsValue_def)
next
  case False
  then have u: "uint (c - d) = uint c - uint d + 2 ^ 64" by (simp add: uint_sub_if')
  have p: "(2::int) ^ 64 = 2 * 2 ^ 63" by simp
  from u assms False have ge: "\<not> uint (c - d) < 2 ^ 63"
    using uint_ge_0[of c] unfolding p by linarith
  then have "sint (c - d) = uint (c - d) - 2 ^ 64" by (simp add: sint_64)
  with u False have neg: "sint (c - d) < 0" by linarith
  have "- (c - d) = d - c" by simp
  moreover have "uint (d - c) = uint d - uint c" using False by (simp add: uint_sub_if')
  ultimately show ?thesis using neg False by (simp add: AbsValue_def)
qed

lemma CorrectSizeForBatch_tolerance:
  fixes c d :: idx_t
  assumes "uint c < 2 ^ 63" and "uint d < 2 ^ 63"
  shows "CorrectSizeForBatch c d = (\<bar>uint c - uint d\<bar> < uint STANDARD_VECTOR_SIZE)"
  using uint_AbsValue[OF assms]
  by (simp add: CorrectSizeForBatch_def word_less_def)

subsection \<open>An oversize collection\<close>

lemma CorrectSizeForBatch_3500: "\<not> CorrectSizeForBatch 3500 1000"
  by (simp add: CorrectSizeForBatch_tolerance STANDARD_VECTOR_SIZE_def)

lemma CorrectSizeForBatch_500: "CorrectSizeForBatch 500 1000"
  by (simp add: CorrectSizeForBatch_tolerance STANDARD_VECTOR_SIZE_def)

lemmas sink_defs = Sink.simps Sink_processing_tasks_def Sink_append_def GetIndex_def
  InitializeCollection_def Append_def SizeInBytes_def Count_def Let_def OutOfMemory_def

lemmas repartition_defs = RepartitionBatches_def schedule_prepare_def AddTask_def Chunks_def
  Count_def Append_def Let_def CorrectSizeForBatch_3500 CorrectSizeForBatch_500

lemmas task_defs = ExecuteTask_def GetTask_def AddBatchData_def AddTask_def SizeInBytes_def
  Count_def FlushBatchData_def FlushBatchData_loop.simps Let_def
  recording_op_def recording_function_def

lemma run_workers_2:
  "run_workers 2 op g =
     (case ProcessRemainingBatchesTask op g of
        Inl e \<Rightarrow> Inl e
      | Inr g1 \<Rightarrow> ProcessRemainingBatchesTask op g1)"
  by (simp add: numeral_2_eq_2 split: sum.splits)

lemmas finalize_defs = Finalize_def TaskCount_def ProcessRemainingBatchesEvent_def
  ProcessRemainingBatchesTask.simps FinalFlush_def ExecuteTasks.simps
  generous_context_def run_workers_2

lemma CorrectSizeForBatch_2048: "CorrectSizeForBatch 2048 1000"
  by (simp add: CorrectSizeForBatch_tolerance STANDARD_VECTOR_SIZE_def)

lemma CorrectSizeForBatch_1452: "CorrectSizeForBatch 1452 1000"
  by (simp add: CorrectSizeForBatch_tolerance STANDARD_VECTOR_SIZE_def)

lemma sink_3500_full_vectors:
  "sink_all recording_op rows_3500_full_vectors
     (GetLocalSinkState\<lparr>partition_batch_index := Some 0, partition_min_batch_index := Some 0\<rparr>)
     recording_state
   = Inr (NEED_MORE_INPUT,
          \<lparr>collection = Some rows_3500_full_vectors,
           local_rows_copied = 3500, local_memory_usage = 28000, batch_index = Some 0,
           current_task = SINKING_DATA, partition_batch_index = Some 0,
           partition_min_batch_index = Some 0\<rparr>,
          recording_state\<lparr>unflushed_memory_usage := 28000\<rparr>)"
  by (simp add: sink_defs GetLocalSinkState_def recording_state_def rows_3500_full_vectors_def)

lemma next_batch_3500_full_vectors:
  "NextBatch recording_op
     \<lparr>collection = Some rows_3500_full_vectors,
      local_rows_copied = 3500, local_memory_usage = 28000, batch_index = Some 0,
      current_task = SINKING_DATA, partition_batch_index = Some 1,
      partition_min_batch_index = Some 1\<rparr>
     (recording_state\<lparr>unflushed_memory_usage := 28000\<rparr>)
   = Inr (\<lparr>collection = Some [], local_rows_copied = 3500, local_memory_usage = 0,
           batch_index = Some 1, current_task = SINKING_DATA, partition_batch_index = Some 1,
           partition_min_batch_index = Some 1\<rparr>,
          recording_state
            \<lparr>global_state := \<lparr>prepared_rows = [2048], flushed_rows = [2048], finalized = False\<rparr>,
             scheduled_batch_index := 2, flushed_batch_index := 1,
             unflushed_memory_usage := 11616, min_batch_index := 1,
             task_queue :=
               [PrepareBatchTask 1 [\<lparr>chunk_size = 1452, chunk_bytes = 11616\<rparr>],
                RepartitionedFlushTask],
             flush_trace := [0]\<rparr>)"
  by (simp add: NextBatch_def NextBatch_publish_def AddRawBatchData_def GetIndex_def
        repartition_defs task_defs UnblockTasks_def UnblockTasksInternal_def
        UpdateMinBatchIndex_def InitializeCollection_def recording_state_def
        rows_3500_full_vectors_def)

lemma finalize_3500_full_vectors:
  "Finalize recording_op
     (recording_state
        \<lparr>global_state := \<lparr>prepared_rows = [2048], flushed_rows = [2048], finalized = False\<rparr>,
         scheduled_batch_index := 2, flushed_batch_index := 1,
         unflushed_memory_usage := 11616, min_batch_index := 1,
         task_queue :=
           [PrepareBatchTask 1 [\<lparr>chunk_size = 1452, chunk_bytes = 11616\<rparr>],
            RepartitionedFlushTask],
         flush_trace := [0]\<rparr>)
   = Inr (recording_state
        \<lparr>global_state := \<lparr>prepared_rows = [2048, 1452], flushed_rows = [2048, 1452],
                           finalized = True\<rparr>,
         scheduled_batch_index := 2, flushed_batch_index := 2,
         unflushed_memory_usage := 0, min_batch_index := 1,
         task_queue := [], flush_trace := [0, 1]\<rparr>)"
  by (simp add: finalize_defs repartition_defs task_defs recording_state_def)

lemma rows_nat_Nil [simp]: "rows_nat [] = 0"
  by (simp add: rows_nat_def)

lemma rows_nat_Cons [simp]: "rows_nat (chunk # c) = unat (chunk_size chunk) + rows_nat c"
  by (simp add: rows_nat_def)

lemma rows_nat_append: "rows_nat (a @ b) = rows_nat a + rows_nat b"
  by (simp add: rows_nat_def)

lemma bytes_nat_append: "bytes_nat (a @ b) = bytes_nat a + bytes_nat b"
  by (simp add: bytes_nat_def)

lemma Count_of_nat: "Count c = of_nat (rows_nat c)"
  by (induction c) (simp_all add: Count_def rows_nat_def)

lemma SizeInBytes_of_nat: "SizeInBytes c = of_nat (bytes_nat c)"
  by (induction c) (simp_all add: SizeInBytes_def bytes_nat_def)

lemma unat_Count: "rows_nat c < 2 ^ 64 \<Longrightarrow> unat (Count c) = rows_nat c"
  by (simp add: Count_of_nat unat_of_nat)

lemma unat_SizeInBytes: "bytes_nat c < 2 ^ 64 \<Longrightarrow> unat (SizeInBytes c) = bytes_nat c"
  by (simp add: SizeInBytes_of_nat unat_of_nat)

lemma Count_app: "Count (a @ b) = Count a + Count b"
  by (simp add: Count_def)

lemma SizeInBytes_app: "SizeInBytes (a @ b) = SizeInBytes a + SizeInBytes b"
  by (simp add: SizeInBytes_def)

lemma rows_nat_take_mono: "j \<le> k \<Longrightarrow> rows_nat (take j c) \<le> rows_nat (take k c)"
proof -
  assume "j \<le> k"
  then have "take k c = take j c @ take (k - j) (drop j c)"
    using take_add[of j "k - j" c] by simp
  then show ?thesis by (simp add: rows_nat_append)
qed

lemma rows_nat_take_le: "rows_nat (take k c) \<le> rows_nat c"
  using rows_nat_take_mono[of k "length c" c] by (cases "k \<le> length c") simp_all

lemma partial_rows_iff: "n \<in> set (partial_rows c) \<longleftrightarrow> (\<exists>k\<le>length c. rows_nat (take k c) = n)"
proof -
  have "set (partial_rows c) = (\<lambda>k. rows_nat (take k c)) ` {..length c}"
    by (simp add: partial_rows_def atLeast0LessThan lessThan_Suc_atMost del: upt_Suc)
  then show ?thesis by auto
qed

lemma schedule_prepare_batch_size: "batch_size (schedule_prepare g c) = batch_size g"
  by (simp add: schedule_prepare_def AddTask_def)

lemma append_chunks_cut:
  "rows_nat cur + rows_nat cs < 2 ^ 64 \<Longrightarrow> rows_nat cur < unat (batch_size g) \<Longrightarrow>
   k \<le> length cs \<Longrightarrow> rows_nat cur + rows_nat (take k cs) = unat (batch_size g) \<Longrightarrow>
   \<exists>j\<le>k. 0 < j \<and> rows_nat (cur @ take j cs) = unat (batch_size g)
      \<and> append_chunks g cur cs
        = append_chunks (schedule_prepare g (cur @ take j cs)) [] (drop j cs)"
proof (induction cs arbitrary: cur k)
  case Nil
  then show ?case by (simp add: rows_nat_def)
next
  case (Cons ch rest)
  from Cons.prems obtain k' where k: "k = Suc k'" by (cases k) auto
  let ?cur1 = "cur @ [ch]"
  have small: "rows_nat ?cur1 < 2 ^ 64"
    using Cons.prems(1) by (simp add: rows_nat_append rows_nat_def)
  have cmp: "Count (Append cur ch) < batch_size g \<longleftrightarrow> rows_nat ?cur1 < unat (batch_size g)"
    using unat_Count[OF small] by (simp add: word_less_nat_alt Append_def)
  have le: "rows_nat ?cur1 \<le> unat (batch_size g)"
    using Cons.prems(4) k by (simp add: rows_nat_append rows_nat_def)
  show ?case
  proof (cases "rows_nat ?cur1 < unat (batch_size g)")
    case True
    have "\<exists>j\<le>k'. 0 < j \<and> rows_nat (?cur1 @ take j rest) = unat (batch_size g)
      \<and> append_chunks g ?cur1 rest
        = append_chunks (schedule_prepare g (?cur1 @ take j rest)) [] (drop j rest)"
    proof (rule Cons.IH)
      show "rows_nat ?cur1 + rows_nat rest < 2 ^ 64"
        using Cons.prems(1) by (simp add: rows_nat_append rows_nat_def)
      show "rows_nat ?cur1 < unat (batch_size g)" by (rule True)
      show "k' \<le> length rest" using Cons.prems(3) k by simp
      show "rows_nat ?cur1 + rows_nat (take k' rest) = unat (batch_size g)"
        using Cons.prems(4) k by (simp add: rows_nat_append rows_nat_def)
    qed
    then obtain j where j: "j \<le> k'" "0 < j"
      "rows_nat (?cur1 @ take j rest) = unat (batch_size g)"
      "append_chunks g ?cur1 rest
        = append_chunks (schedule_prepare g (?cur1 @ take j rest)) [] (drop j rest)"
      by blast
    show ?thesis
    proof (intro exI[of _ "Suc j"] conjI)
      show "Suc j \<le> k" using j(1) k by simp
      show "0 < Suc j" by simp
      show "rows_nat (cur @ take (Suc j) (ch # rest)) = unat (batch_size g)"
        using j(3) by simp
      show "append_chunks g cur (ch # rest)
            = append_chunks (schedule_prepare g (cur @ take (Suc j) (ch # rest))) []
                (drop (Suc j) (ch # rest))"
        using j(4) True cmp by (simp add: Let_def Append_def)
    qed
  next
    case False
    with le have eq: "rows_nat ?cur1 = unat (batch_size g)" by simp
    show ?thesis
    proof (intro exI[of _ "Suc 0"] conjI)
      show "Suc 0 \<le> k" using k by simp
      show "0 < Suc 0" by simp
      show "rows_nat (cur @ take (Suc 0) (ch # rest)) = unat (batch_size g)"
        using eq by simp
      show "append_chunks g cur (ch # rest)
            = append_chunks (schedule_prepare g (cur @ take (Suc 0) (ch # rest))) []
                (drop (Suc 0) (ch # rest))"
        using False cmp by (simp add: Let_def Append_def)
    qed
  qed
qed

lemma append_chunks_below:
  "rows_nat cur + rows_nat cs < unat (batch_size g) \<Longrightarrow>
   append_chunks g cur cs = (g, cur @ cs)"
proof (induction cs arbitrary: cur)
  case Nil
  then show ?case by simp
next
  case (Cons ch rest)
  let ?cur1 = "cur @ [ch]"
  have b: "rows_nat ?cur1 + rows_nat rest < unat (batch_size g)"
    using Cons.prems by (simp add: rows_nat_append rows_nat_def)
  then have lt: "rows_nat ?cur1 < unat (batch_size g)" by simp
  have "unat (batch_size g) < 2 ^ LENGTH(64)" by (rule unsigned_less)
  then have "unat (batch_size g) < 2 ^ 64" by simp
  with lt have small: "rows_nat ?cur1 < 2 ^ 64" by simp
  have cmp: "Count (Append cur ch) < batch_size g"
    using unat_Count[OF small] lt by (simp add: word_less_nat_alt Append_def)
  from Cons.IH[OF b] cmp show ?case by (simp add: Let_def Append_def)
qed

text \<open>One cut: the first output and what the later partial sums become.\<close>

lemma append_chunks_first_cut:
  assumes "rows_nat cs < 2 ^ 64" and "0 < unat (batch_size g)"
    and "unat (batch_size g) \<in> set (partial_rows cs)"
  shows "\<exists>c rest. cs = c @ rest \<and> rows_nat c = unat (batch_size g)
           \<and> append_chunks g [] cs = append_chunks (schedule_prepare g c) [] rest
           \<and> (\<forall>m\<in>set (partial_rows cs). unat (batch_size g) \<le> m
                 \<longrightarrow> m - unat (batch_size g) \<in> set (partial_rows rest))"
proof -
  from assms(3) obtain k where k: "k \<le> length cs" "rows_nat (take k cs) = unat (batch_size g)"
    by (auto simp: partial_rows_iff)
  have "\<exists>j\<le>k. 0 < j \<and> rows_nat ([] @ take j cs) = unat (batch_size g)
      \<and> append_chunks g [] cs
        = append_chunks (schedule_prepare g ([] @ take j cs)) [] (drop j cs)"
    by (rule append_chunks_cut) (use assms k in \<open>simp_all add: rows_nat_def\<close>)
  then obtain j where j: "j \<le> k" "rows_nat (take j cs) = unat (batch_size g)"
    "append_chunks g [] cs = append_chunks (schedule_prepare g (take j cs)) [] (drop j cs)"
    by auto
  have later: "m - unat (batch_size g) \<in> set (partial_rows (drop j cs))"
    if m: "m \<in> set (partial_rows cs)" and ge: "unat (batch_size g) \<le> m" for m
  proof -
    from m obtain i where i: "i \<le> length cs" "rows_nat (take i cs) = m"
      by (auto simp: partial_rows_iff)
    show ?thesis
    proof (cases "j \<le> i")
      case True
      then have "take i cs = take j cs @ take (i - j) (drop j cs)"
        using take_add[of j "i - j" cs] by simp
      then have "rows_nat (take (i - j) (drop j cs)) = m - unat (batch_size g)"
        using i(2) j(2) by (simp add: rows_nat_append)
      moreover have "i - j \<le> length (drop j cs)" using i(1) by simp
      ultimately show ?thesis by (auto simp: partial_rows_iff)
    next
      case False
      then have "rows_nat (take i cs) \<le> rows_nat (take j cs)"
        by (intro rows_nat_take_mono) simp
      with i(2) j(2) ge have "m = unat (batch_size g)" by simp
      then show ?thesis by (auto simp: partial_rows_iff intro: exI[of _ 0] simp: rows_nat_def)
    qed
  qed
  show ?thesis
    by (intro exI[of _ "take j cs"] exI[of _ "drop j cs"]) (use j later in auto)
qed

lemma Count_rows: "rows_nat c = n \<Longrightarrow> Count c = of_nat n"
  by (simp add: Count_of_nat)

lemma append_chunks_3500:
  assumes bs: "batch_size g = 1000" and rows: "rows_nat cs = 3500"
    and h1: "1000 \<in> set (partial_rows cs)" and h2: "2000 \<in> set (partial_rows cs)"
    and h3: "3000 \<in> set (partial_rows cs)"
  shows "\<exists>c0 c1 c2 c3. cs = c0 @ c1 @ c2 @ c3
           \<and> rows_nat c0 = 1000 \<and> rows_nat c1 = 1000 \<and> rows_nat c2 = 1000
           \<and> rows_nat c3 = 500
           \<and> append_chunks g [] cs
             = (schedule_prepare (schedule_prepare (schedule_prepare g c0) c1) c2, c3)"
proof -
  have u: "unat (batch_size g) = 1000" using bs by simp
  have "\<exists>c rest. cs = c @ rest \<and> rows_nat c = unat (batch_size g)
           \<and> append_chunks g [] cs = append_chunks (schedule_prepare g c) [] rest
           \<and> (\<forall>m\<in>set (partial_rows cs). unat (batch_size g) \<le> m
                 \<longrightarrow> m - unat (batch_size g) \<in> set (partial_rows rest))"
    by (rule append_chunks_first_cut) (use rows u h1 in simp_all)
  then obtain c0 r0 where c0: "cs = c0 @ r0" "rows_nat c0 = 1000"
    "append_chunks g [] cs = append_chunks (schedule_prepare g c0) [] r0"
    and l0: "\<And>m. m \<in> set (partial_rows cs) \<Longrightarrow> 1000 \<le> m
                \<Longrightarrow> m - 1000 \<in> set (partial_rows r0)"
    unfolding u by blast
  from l0[OF h2] l0[OF h3] have h1': "1000 \<in> set (partial_rows r0)"
    and h2': "2000 \<in> set (partial_rows r0)" by simp_all
  from c0 rows have rows0: "rows_nat r0 = 2500" by (simp add: rows_nat_append)
  let ?g1 = "schedule_prepare g c0"
  have u1: "unat (batch_size ?g1) = 1000" using u by (simp add: schedule_prepare_batch_size)
  have "\<exists>c rest. r0 = c @ rest \<and> rows_nat c = unat (batch_size ?g1)
           \<and> append_chunks ?g1 [] r0 = append_chunks (schedule_prepare ?g1 c) [] rest
           \<and> (\<forall>m\<in>set (partial_rows r0). unat (batch_size ?g1) \<le> m
                 \<longrightarrow> m - unat (batch_size ?g1) \<in> set (partial_rows rest))"
    by (rule append_chunks_first_cut) (use rows0 u1 h1' in simp_all)
  then obtain c1 r1 where c1: "r0 = c1 @ r1" "rows_nat c1 = 1000"
    "append_chunks ?g1 [] r0 = append_chunks (schedule_prepare ?g1 c1) [] r1"
    and l1: "\<And>m. m \<in> set (partial_rows r0) \<Longrightarrow> 1000 \<le> m
                \<Longrightarrow> m - 1000 \<in> set (partial_rows r1)"
    unfolding u1 by blast
  from l1[OF h2'] have h1'': "1000 \<in> set (partial_rows r1)" by simp
  from c1 rows0 have rows1: "rows_nat r1 = 1500" by (simp add: rows_nat_append)
  let ?g2 = "schedule_prepare ?g1 c1"
  have u2: "unat (batch_size ?g2) = 1000" using u by (simp add: schedule_prepare_batch_size)
  have "\<exists>c rest. r1 = c @ rest \<and> rows_nat c = unat (batch_size ?g2)
           \<and> append_chunks ?g2 [] r1 = append_chunks (schedule_prepare ?g2 c) [] rest
           \<and> (\<forall>m\<in>set (partial_rows r1). unat (batch_size ?g2) \<le> m
                 \<longrightarrow> m - unat (batch_size ?g2) \<in> set (partial_rows rest))"
    by (rule append_chunks_first_cut) (use rows1 u2 h1'' in simp_all)
  then obtain c2 r2 where c2: "r1 = c2 @ r2" "rows_nat c2 = 1000"
    "append_chunks ?g2 [] r1 = append_chunks (schedule_prepare ?g2 c2) [] r2"
    unfolding u2 by blast
  from c2 rows1 have rows2: "rows_nat r2 = 500" by (simp add: rows_nat_append)
  let ?g3 = "schedule_prepare ?g2 c2"
  have u3: "unat (batch_size ?g3) = 1000" using u by (simp add: schedule_prepare_batch_size)
  have "append_chunks ?g3 [] r2 = (?g3, [] @ r2)"
    by (rule append_chunks_below) (simp add: rows2 u3)
  with c0 c1 c2 have "append_chunks g [] cs = (?g3, r2)" by simp
  with c0 c1 c2 rows2 show ?thesis by blast
qed

lemma RepartitionBatches_3500:
  assumes bs: "batch_size g = 1000" and raw: "raw_batches g = [(0, cs)]"
    and nf: "\<not> any_finished g" and rows: "rows_nat cs = 3500"
    and h1: "1000 \<in> set (partial_rows cs)" and h2: "2000 \<in> set (partial_rows cs)"
    and h3: "3000 \<in> set (partial_rows cs)"
  shows "\<exists>c0 c1 c2 c3. cs = c0 @ c1 @ c2 @ c3
           \<and> rows_nat c0 = 1000 \<and> rows_nat c1 = 1000 \<and> rows_nat c2 = 1000
           \<and> rows_nat c3 = 500
           \<and> RepartitionBatches op g 1 False
             = schedule_prepare (schedule_prepare (schedule_prepare
                 (schedule_prepare (g\<lparr>raw_batches := []\<rparr>) c0) c1) c2) c3"
proof -
  let ?g1 = "g\<lparr>raw_batches := []\<rparr>"
  have "batch_size ?g1 = 1000" using bs by simp
  from append_chunks_3500[OF this rows h1 h2 h3] obtain c0 c1 c2 c3 where
    c: "cs = c0 @ c1 @ c2 @ c3" "rows_nat c0 = 1000" "rows_nat c1 = 1000" "rows_nat c2 = 1000"
       "rows_nat c3 = 500"
    and a: "append_chunks ?g1 [] cs
             = (schedule_prepare (schedule_prepare (schedule_prepare ?g1 c0) c1) c2, c3)"
    by blast
  have n: "Count cs = 3500" using Count_rows[OF rows] by simp
  have n3: "Count c3 = 500" using Count_rows[OF c(5)] by simp
  have "RepartitionBatches op g 1 False
        = schedule_prepare (schedule_prepare (schedule_prepare
                 (schedule_prepare ?g1 c0) c1) c2) c3"
    using bs raw nf n n3 a
    by (simp add: RepartitionBatches_def Let_def Chunks_def CorrectSizeForBatch_3500
          CorrectSizeForBatch_500 schedule_prepare_batch_size)
  with c show ?thesis by blast
qed

lemma bytes_nat_Nil [simp]: "bytes_nat [] = 0"
  by (simp add: bytes_nat_def)

lemma bytes_nat_Cons [simp]: "bytes_nat (chunk # c) = unat (chunk_bytes chunk) + bytes_nat c"
  by (simp add: bytes_nat_def)

lemma Sink_append_appends:
  assumes c: "collection state = Some c" and l: "local_memory_usage state = SizeInBytes c"
    and small: "bytes_nat c + unat (chunk_bytes chunk) < 2 ^ 64"
  shows "Sink_append chunk b state g
         = Inr (NEED_MORE_INPUT,
                state\<lparr>local_rows_copied := local_rows_copied state + chunk_size chunk,
                      collection := Some (c @ [chunk]),
                      local_memory_usage := SizeInBytes (c @ [chunk])\<rparr>,
                g\<lparr>unflushed_memory_usage := unflushed_memory_usage g + chunk_bytes chunk\<rparr>)"
proof -
  have n: "SizeInBytes (c @ [chunk]) = SizeInBytes c + chunk_bytes chunk"
    by (simp add: SizeInBytes_def)
  have "bytes_nat (c @ [chunk]) < 2 ^ 64" "bytes_nat c < 2 ^ 64"
    using small by (simp_all add: bytes_nat_append)
  then have un: "unat (SizeInBytes (c @ [chunk])) = unat (SizeInBytes c) + unat (chunk_bytes chunk)"
    by (simp add: unat_SizeInBytes bytes_nat_append)
  have nl: "\<not> SizeInBytes (c @ [chunk]) < SizeInBytes c"
    by (simp add: word_less_nat_alt un)
  have d: "SizeInBytes (c @ [chunk]) - SizeInBytes c = chunk_bytes chunk"
    by (simp add: n)
  show ?thesis
  proof (cases "SizeInBytes c < SizeInBytes (c @ [chunk])")
    case True
    with c l d show ?thesis by (simp add: Sink_append_def Let_def Append_def)
  next
    case False
    with nl have "SizeInBytes (c @ [chunk]) = SizeInBytes c" by simp
    with n have z: "chunk_bytes chunk = 0" by simp
    from False nl c l z show ?thesis by (simp add: Sink_append_def Let_def Append_def)
  qed
qed

lemma Sink_at_minimum_appends:
  assumes "partition_batch_index state = Some b" and "\<not> min_batch_index g < b"
    and "current_task state = SINKING_DATA"
    and "collection state = Some c" and "local_memory_usage state = SizeInBytes c"
    and "bytes_nat c + unat (chunk_bytes chunk) < 2 ^ 64"
  shows "Sink op chunk i state g
         = Inr (NEED_MORE_INPUT,
                state\<lparr>local_rows_copied := local_rows_copied state + chunk_size chunk,
                      collection := Some (c @ [chunk]),
                      local_memory_usage := SizeInBytes (c @ [chunk])\<rparr>,
                g\<lparr>unflushed_memory_usage := unflushed_memory_usage g + chunk_bytes chunk\<rparr>)"
  using assms(1-3) Sink_append_appends[OF assms(4-6), of b g]
  by (simp add: Sink.simps[of op chunk i state g] GetIndex_def)

lemma sink_all_at_minimum:
  "partition_batch_index state = Some b \<Longrightarrow> \<not> min_batch_index g < b \<Longrightarrow>
   current_task state = SINKING_DATA \<Longrightarrow>
   collection state = Some c \<Longrightarrow> local_memory_usage state = SizeInBytes c \<Longrightarrow>
   bytes_nat c + bytes_nat cs < 2 ^ 64 \<Longrightarrow>
   sink_all op cs state g
   = Inr (NEED_MORE_INPUT,
          state\<lparr>local_rows_copied := local_rows_copied state + Count cs,
                collection := Some (c @ cs),
                local_memory_usage := SizeInBytes (c @ cs)\<rparr>,
          g\<lparr>unflushed_memory_usage := unflushed_memory_usage g + SizeInBytes cs\<rparr>)"
proof (induction cs arbitrary: state g c)
  case Nil
  from Nil(4)[symmetric] Nil(5)[symmetric] show ?case
    by (simp add: Count_def SizeInBytes_def)
next
  case (Cons chunk rest)
  let ?s1 = "state\<lparr>local_rows_copied := local_rows_copied state + chunk_size chunk,
                      collection := Some (c @ [chunk]),
                      local_memory_usage := SizeInBytes (c @ [chunk])\<rparr>"
  let ?g1 = "g\<lparr>unflushed_memory_usage := unflushed_memory_usage g + chunk_bytes chunk\<rparr>"
  have s: "Sink op chunk 0 state g = Inr (NEED_MORE_INPUT, ?s1, ?g1)"
    by (rule Sink_at_minimum_appends) (use Cons.prems in simp_all)
  have r: "sink_all op rest ?s1 ?g1
   = Inr (NEED_MORE_INPUT,
          ?s1\<lparr>local_rows_copied := local_rows_copied ?s1 + Count rest,
                collection := Some ((c @ [chunk]) @ rest),
                local_memory_usage := SizeInBytes ((c @ [chunk]) @ rest)\<rparr>,
          ?g1\<lparr>unflushed_memory_usage := unflushed_memory_usage ?g1 + SizeInBytes rest\<rparr>)"
    by (rule Cons.IH) (use Cons.prems in \<open>simp_all add: bytes_nat_append\<close>)
  show ?case
    by (simp add: s r) (simp add: Count_def SizeInBytes_def add.assoc)
qed

lemma sink_all_batch_0:
  assumes "bytes_nat chunks < 2 ^ 64" and "chunks \<noteq> []"
  shows "sink_all recording_op chunks
     (GetLocalSinkState\<lparr>partition_batch_index := Some 0, partition_min_batch_index := Some 0\<rparr>)
     recording_state
   = Inr (NEED_MORE_INPUT,
          \<lparr>collection = Some chunks,
           local_rows_copied = Count chunks, local_memory_usage = SizeInBytes chunks,
           batch_index = Some 0,
           current_task = SINKING_DATA, partition_batch_index = Some 0,
           partition_min_batch_index = Some 0\<rparr>,
          recording_state\<lparr>unflushed_memory_usage := SizeInBytes chunks\<rparr>)"
proof -
  from assms(2) obtain chunk rest where ch: "chunks = chunk # rest" by (cases chunks) auto
  let ?s0 = "GetLocalSinkState\<lparr>partition_batch_index := Some 0,
                                 partition_min_batch_index := Some 0\<rparr>"
  let ?s1 = "\<lparr>collection = Some [chunk],
           local_rows_copied = chunk_size chunk, local_memory_usage = chunk_bytes chunk,
           batch_index = Some 0,
           current_task = SINKING_DATA, partition_batch_index = Some 0,
           partition_min_batch_index = Some 0\<rparr>"
  let ?g1 = "recording_state\<lparr>unflushed_memory_usage := chunk_bytes chunk\<rparr>"
  have first: "Sink recording_op chunk 0 ?s0 recording_state = Inr (NEED_MORE_INPUT, ?s1, ?g1)"
  proof (cases "chunk_bytes chunk = 0")
    case True
    then show ?thesis
      by (simp add: Sink.simps Sink_append_def GetIndex_def InitializeCollection_def Append_def
            SizeInBytes_def Let_def GetLocalSinkState_def recording_state_def)
  next
    case False
    then have "0 < chunk_bytes chunk" by (simp add: word_neq_0_conv)
    then show ?thesis
      by (simp add: Sink.simps Sink_append_def GetIndex_def InitializeCollection_def Append_def
            SizeInBytes_def Let_def GetLocalSinkState_def recording_state_def)
  qed
  have rest: "sink_all recording_op rest ?s1 ?g1
   = Inr (NEED_MORE_INPUT,
          ?s1\<lparr>local_rows_copied := local_rows_copied ?s1 + Count rest,
                collection := Some ([chunk] @ rest),
                local_memory_usage := SizeInBytes ([chunk] @ rest)\<rparr>,
          ?g1\<lparr>unflushed_memory_usage := unflushed_memory_usage ?g1 + SizeInBytes rest\<rparr>)"
    by (rule sink_all_at_minimum[where b = 0])
       (use assms(1) ch in \<open>simp_all add: SizeInBytes_def recording_state_def\<close>)
  show ?thesis
    unfolding ch
    by (simp add: first rest) (simp add: Count_def SizeInBytes_def)
qed

lemmas recording_task_defs = ExecuteTask_def GetTask_def AddBatchData_def AddTask_def
  FlushBatchData_def FlushBatchData_loop.simps Let_def recording_op_def recording_function_def

lemma next_batch_cut:
  assumes rep: "RepartitionBatches recording_op
       (recording_state\<lparr>raw_batches := [(0, cs)], unflushed_memory_usage := U\<rparr>) 1 False
     = schedule_prepare (schedule_prepare (schedule_prepare (schedule_prepare
         (recording_state\<lparr>raw_batches := [(0, cs)], unflushed_memory_usage := U,
                           raw_batches := []\<rparr>) c0) c1) c2) c3"
    and n: "Count cs = 3500" and n0: "Count c0 = 1000"
  shows "NextBatch recording_op
     \<lparr>collection = Some cs, local_rows_copied = R, local_memory_usage = L,
      batch_index = Some 0, current_task = SINKING_DATA, partition_batch_index = Some 1,
      partition_min_batch_index = Some 1\<rparr>
     (recording_state\<lparr>unflushed_memory_usage := U\<rparr>)
   = Inr (\<lparr>collection = Some [], local_rows_copied = R, local_memory_usage = 0,
           batch_index = Some 1, current_task = SINKING_DATA, partition_batch_index = Some 1,
           partition_min_batch_index = Some 1\<rparr>,
          recording_state
            \<lparr>global_state := \<lparr>prepared_rows = [1000], flushed_rows = [1000], finalized = False\<rparr>,
             scheduled_batch_index := 4, flushed_batch_index := 1,
             unflushed_memory_usage := U - SizeInBytes c0, min_batch_index := 1,
             task_queue :=
               [PrepareBatchTask 1 c1, PrepareBatchTask 2 c2, PrepareBatchTask 3 c3,
                RepartitionedFlushTask],
             flush_trace := [0]\<rparr>)"
proof -
  define G1 where "G1 = recording_state\<lparr>raw_batches := [(0, cs)], unflushed_memory_usage := U\<rparr>"
  have a: "AddRawBatchData (recording_state\<lparr>unflushed_memory_usage := U\<rparr>) 0 cs = Inr G1"
    by (simp add: AddRawBatchData_def G1_def recording_state_def)
  have b: "RepartitionBatches recording_op G1 1 False
     = schedule_prepare (schedule_prepare (schedule_prepare (schedule_prepare
         (G1\<lparr>raw_batches := []\<rparr>) c0) c1) c2) c3"
    using rep by (simp add: G1_def)
  show ?thesis
    by (simp add: NextBatch_def NextBatch_publish_def GetIndex_def n a b)
       (simp add: G1_def schedule_prepare_def recording_task_defs n0 UnblockTasks_def GetIndex_def
          UnblockTasksInternal_def UpdateMinBatchIndex_def InitializeCollection_def
          recording_state_def)
qed

lemma finalize_cut:
  assumes n1: "Count c1 = 1000" and n2: "Count c2 = 1000" and n3: "Count c3 = 500"
  shows "Finalize recording_op
     (recording_state
        \<lparr>rows_copied := RC,
         global_state := \<lparr>prepared_rows = [1000], flushed_rows = [1000], finalized = False\<rparr>,
         scheduled_batch_index := 4, flushed_batch_index := 1, any_finished := F,
         unflushed_memory_usage := U, min_batch_index := 1,
         task_queue :=
           [PrepareBatchTask 1 c1, PrepareBatchTask 2 c2, PrepareBatchTask 3 c3,
            RepartitionedFlushTask],
         flush_trace := [0]\<rparr>)
   = Inr (recording_state
        \<lparr>rows_copied := RC,
         global_state := \<lparr>prepared_rows = [1000, 1000, 1000, 500],
                           flushed_rows = [1000, 1000, 1000, 500], finalized = True\<rparr>,
         scheduled_batch_index := 4, flushed_batch_index := 4, any_finished := F,
         unflushed_memory_usage := U - SizeInBytes c1 - SizeInBytes c2 - SizeInBytes c3,
         min_batch_index := 1,
         task_queue := [], flush_trace := [0, 1, 2, 3]\<rparr>)"
  by (simp add: Finalize_def TaskCount_def ProcessRemainingBatchesEvent_def
        ProcessRemainingBatchesTask.simps FinalFlush_def generous_context_def run_workers_2
        RepartitionBatches_def recording_task_defs n1 n2 n3 recording_state_def)

lemma combine_finalize_cut:
  assumes n1: "Count c1 = 1000" and n2: "Count c2 = 1000" and n3: "Count c3 = 500"
  shows "(case Combine recording_op
       \<lparr>collection = Some [], local_rows_copied = R, local_memory_usage = 0,
        batch_index = Some 1, current_task = SINKING_DATA, partition_batch_index = Some 1,
        partition_min_batch_index = Some 1\<rparr>
       (recording_state
          \<lparr>global_state := \<lparr>prepared_rows = [1000], flushed_rows = [1000], finalized = False\<rparr>,
           scheduled_batch_index := 4, flushed_batch_index := 1,
           unflushed_memory_usage := U, min_batch_index := 1,
           task_queue :=
             [PrepareBatchTask 1 c1, PrepareBatchTask 2 c2, PrepareBatchTask 3 c3,
              RepartitionedFlushTask],
           flush_trace := [0]\<rparr>) of
      Inl e \<Rightarrow> Inl e
    | Inr g \<Rightarrow> Finalize recording_op g)
   = Inr (recording_state
        \<lparr>rows_copied := R,
         global_state := \<lparr>prepared_rows = [1000, 1000, 1000, 500],
                           flushed_rows = [1000, 1000, 1000, 500], finalized = True\<rparr>,
         scheduled_batch_index := 4, flushed_batch_index := 4, any_finished := True,
         unflushed_memory_usage := U - SizeInBytes c1 - SizeInBytes c2 - SizeInBytes c3,
         min_batch_index := 1,
         task_queue := [], flush_trace := [0, 1, 2, 3]\<rparr>)"
  by (simp add: Combine_def GetIndex_def UpdateMinBatchIndex_def Finalize_def TaskCount_def
        ProcessRemainingBatchesEvent_def ProcessRemainingBatchesTask.simps FinalFlush_def
        ExecuteTasks.simps generous_context_def run_workers_2
        RepartitionBatches_def recording_task_defs n1 n2 n3 recording_state_def)

text \<open>
  Claim C3, as amended. With a desired batch size of 1000, a single producer sinks batch 0,
  3500 rows in chunks whose sizes add up to 1000, to 2000 and to 3000 rows on the way (and
  whose bytes add up below \<open>2 ^ 64\<close>), and \<^verbatim>\<open>NextBatch\<close> is called for batch 1.
  \<^verbatim>\<open>RepartitionBatches\<close> cuts the collection into three collections of 1000 rows and one of
  500 rows, and schedules all four (the remainder is within one vector of 1000 rows);
  \<^verbatim>\<open>NextBatch\<close> prepares and flushes batch 0. After \<^verbatim>\<open>Finalize\<close>, with or without
  \<^verbatim>\<open>Combine\<close> before it, there are exactly four flushes, of the batches 0, 1, 2 and 3, with
  1000, 1000, 1000 and 500 rows: 3500 rows.
\<close>

theorem oversize_collection_cut_at_batch_size:
  assumes rows: "rows_nat chunks = 3500"
    and h1: "1000 \<in> set (partial_rows chunks)" and h2: "2000 \<in> set (partial_rows chunks)"
    and h3: "3000 \<in> set (partial_rows chunks)"
    and bytes: "bytes_nat chunks < 2 ^ 64"
  shows "\<exists>c0 c1 c2 c3. chunks = c0 @ c1 @ c2 @ c3
     \<and> Count c0 = 1000 \<and> Count c1 = 1000 \<and> Count c2 = 1000 \<and> Count c3 = 500
     \<and> RepartitionBatches recording_op
         (recording_state\<lparr>raw_batches := [(0, chunks)],
                           unflushed_memory_usage := SizeInBytes chunks\<rparr>) 1 False
       = recording_state
           \<lparr>unflushed_memory_usage := SizeInBytes chunks, scheduled_batch_index := 4,
            task_queue :=
              [PrepareBatchTask 0 c0, PrepareBatchTask 1 c1, PrepareBatchTask 2 c2,
               PrepareBatchTask 3 c3]\<rparr>
     \<and> batch_0_then_next_batch chunks
       = Inr (\<lparr>collection = Some [], local_rows_copied = 3500, local_memory_usage = 0,
               batch_index = Some 1, current_task = SINKING_DATA,
               partition_batch_index = Some 1, partition_min_batch_index = Some 1\<rparr>,
              recording_state
                \<lparr>global_state :=
                   \<lparr>prepared_rows = [1000], flushed_rows = [1000], finalized = False\<rparr>,
                 scheduled_batch_index := 4, flushed_batch_index := 1,
                 unflushed_memory_usage := SizeInBytes chunks - SizeInBytes c0,
                 min_batch_index := 1,
                 task_queue :=
                   [PrepareBatchTask 1 c1, PrepareBatchTask 2 c2, PrepareBatchTask 3 c3,
                    RepartitionedFlushTask],
                 flush_trace := [0]\<rparr>)
     \<and> batch_0_then_finalize chunks
       = Inr (recording_state
            \<lparr>global_state := \<lparr>prepared_rows = [1000, 1000, 1000, 500],
                               flushed_rows = [1000, 1000, 1000, 500], finalized = True\<rparr>,
             scheduled_batch_index := 4, flushed_batch_index := 4,
             unflushed_memory_usage := 0, min_batch_index := 1,
             task_queue := [], flush_trace := [0, 1, 2, 3]\<rparr>)
     \<and> batch_0_combine_finalize chunks
       = Inr (recording_state
            \<lparr>rows_copied := 3500,
             global_state := \<lparr>prepared_rows = [1000, 1000, 1000, 500],
                               flushed_rows = [1000, 1000, 1000, 500], finalized = True\<rparr>,
             scheduled_batch_index := 4, flushed_batch_index := 4, any_finished := True,
             unflushed_memory_usage := 0, min_batch_index := 1,
             task_queue := [], flush_trace := [0, 1, 2, 3]\<rparr>)
     \<and> sum_list [1000, 1000, 1000, 500 :: idx_t] = 3500"
proof -
  let ?U = "SizeInBytes chunks"
  let ?G1 = "recording_state\<lparr>raw_batches := [(0, chunks)], unflushed_memory_usage := ?U\<rparr>"
  have "\<exists>c0 c1 c2 c3. chunks = c0 @ c1 @ c2 @ c3
           \<and> rows_nat c0 = 1000 \<and> rows_nat c1 = 1000 \<and> rows_nat c2 = 1000
           \<and> rows_nat c3 = 500
           \<and> RepartitionBatches recording_op ?G1 1 False
             = schedule_prepare (schedule_prepare (schedule_prepare
                 (schedule_prepare (?G1\<lparr>raw_batches := []\<rparr>) c0) c1) c2) c3"
    by (rule RepartitionBatches_3500) (use rows h1 h2 h3 in \<open>simp_all add: recording_state_def\<close>)
  then obtain c0 c1 c2 c3 where c: "chunks = c0 @ c1 @ c2 @ c3"
    and r: "rows_nat c0 = 1000" "rows_nat c1 = 1000" "rows_nat c2 = 1000" "rows_nat c3 = 500"
    and rep: "RepartitionBatches recording_op ?G1 1 False
             = schedule_prepare (schedule_prepare (schedule_prepare
                 (schedule_prepare (?G1\<lparr>raw_batches := []\<rparr>) c0) c1) c2) c3"
    by blast
  have n: "Count chunks = 3500" using Count_rows[OF rows] by simp
  have n0: "Count c0 = 1000" using Count_rows[OF r(1)] by simp
  have n1: "Count c1 = 1000" using Count_rows[OF r(2)] by simp
  have n2: "Count c2 = 1000" using Count_rows[OF r(3)] by simp
  have n3: "Count c3 = 500" using Count_rows[OF r(4)] by simp
  have ne: "chunks \<noteq> []" using rows by auto
  have zero: "?U - SizeInBytes c0 - SizeInBytes c1 - SizeInBytes c2 - SizeInBytes c3 = 0"
    by (simp add: c SizeInBytes_app)
  have rep': "RepartitionBatches recording_op ?G1 1 False
       = recording_state
           \<lparr>unflushed_memory_usage := ?U, scheduled_batch_index := 4,
            task_queue :=
              [PrepareBatchTask 0 c0, PrepareBatchTask 1 c1, PrepareBatchTask 2 c2,
               PrepareBatchTask 3 c3]\<rparr>"
    unfolding rep by (simp add: schedule_prepare_def AddTask_def recording_state_def)
  have nb: "batch_0_then_next_batch chunks
       = Inr (\<lparr>collection = Some [], local_rows_copied = 3500, local_memory_usage = 0,
               batch_index = Some 1, current_task = SINKING_DATA,
               partition_batch_index = Some 1, partition_min_batch_index = Some 1\<rparr>,
              recording_state
                \<lparr>global_state :=
                   \<lparr>prepared_rows = [1000], flushed_rows = [1000], finalized = False\<rparr>,
                 scheduled_batch_index := 4, flushed_batch_index := 1,
                 unflushed_memory_usage := ?U - SizeInBytes c0,
                 min_batch_index := 1,
                 task_queue :=
                   [PrepareBatchTask 1 c1, PrepareBatchTask 2 c2, PrepareBatchTask 3 c3,
                    RepartitionedFlushTask],
                 flush_trace := [0]\<rparr>)"
    using next_batch_cut[OF _ n n0, where U = ?U and ?c1.0 = c1 and ?c2.0 = c2 and ?c3.0 = c3
            and R = 3500 and L = ?U] rep
    by (simp add: batch_0_then_next_batch_def GetGlobalSinkState_recording
          sink_all_batch_0[OF bytes ne] n)
  have fin: "batch_0_then_finalize chunks
       = Inr (recording_state
            \<lparr>global_state := \<lparr>prepared_rows = [1000, 1000, 1000, 500],
                               flushed_rows = [1000, 1000, 1000, 500], finalized = True\<rparr>,
             scheduled_batch_index := 4, flushed_batch_index := 4,
             unflushed_memory_usage := 0, min_batch_index := 1,
             task_queue := [], flush_trace := [0, 1, 2, 3]\<rparr>)"
    using finalize_cut[OF n1 n2 n3, where RC = 0 and F = False
            and U = "?U - SizeInBytes c0", unfolded zero]
    by (simp add: batch_0_then_finalize_def nb recording_state_def)
  have cfin: "batch_0_combine_finalize chunks
       = Inr (recording_state
            \<lparr>rows_copied := 3500,
             global_state := \<lparr>prepared_rows = [1000, 1000, 1000, 500],
                               flushed_rows = [1000, 1000, 1000, 500], finalized = True\<rparr>,
             scheduled_batch_index := 4, flushed_batch_index := 4, any_finished := True,
             unflushed_memory_usage := 0, min_batch_index := 1,
             task_queue := [], flush_trace := [0, 1, 2, 3]\<rparr>)"
    using combine_finalize_cut[OF n1 n2 n3, where R = 3500
            and U = "?U - SizeInBytes c0", unfolded zero]
    by (simp add: batch_0_combine_finalize_def nb)
  from c n0 n1 n2 n3 rep' nb fin cfin show ?thesis by (intro exI[of _ c0] exI[of _ c1] exI[of _ c2] exI[of _ c3]) simp
qed

theorem oversize_collection_cut_at_batch_size_witness:
  "rows_nat rows_3500_halves = 3500
   \<and> 1000 \<in> set (partial_rows rows_3500_halves)
   \<and> 2000 \<in> set (partial_rows rows_3500_halves)
   \<and> 3000 \<in> set (partial_rows rows_3500_halves)
   \<and> bytes_nat rows_3500_halves < 2 ^ 64
   \<and> batch_0_then_finalize rows_3500_halves
       = Inr (recording_state
            \<lparr>global_state := \<lparr>prepared_rows = [1000, 1000, 1000, 500],
                               flushed_rows = [1000, 1000, 1000, 500], finalized = True\<rparr>,
             scheduled_batch_index := 4, flushed_batch_index := 4,
             unflushed_memory_usage := 0, min_batch_index := 1,
             task_queue := [], flush_trace := [0, 1, 2, 3]\<rparr>)
   \<and> batch_0_combine_finalize rows_3500_halves
       = Inr (recording_state
            \<lparr>rows_copied := 3500,
             global_state := \<lparr>prepared_rows = [1000, 1000, 1000, 500],
                               flushed_rows = [1000, 1000, 1000, 500], finalized = True\<rparr>,
             scheduled_batch_index := 4, flushed_batch_index := 4, any_finished := True,
             unflushed_memory_usage := 0, min_batch_index := 1,
             task_queue := [], flush_trace := [0, 1, 2, 3]\<rparr>)
   \<and> rows_nat rows_3500_aligned = 3500
   \<and> 1000 \<in> set (partial_rows rows_3500_aligned)
   \<and> 2000 \<in> set (partial_rows rows_3500_aligned)
   \<and> 3000 \<in> set (partial_rows rows_3500_aligned)
   \<and> bytes_nat rows_3500_aligned < 2 ^ 64
   \<and> batch_0_then_finalize rows_3500_aligned
       = Inr (recording_state
            \<lparr>global_state := \<lparr>prepared_rows = [1000, 1000, 1000, 500],
                               flushed_rows = [1000, 1000, 1000, 500], finalized = True\<rparr>,
             scheduled_batch_index := 4, flushed_batch_index := 4,
             unflushed_memory_usage := 0, min_batch_index := 1,
             task_queue := [], flush_trace := [0, 1, 2, 3]\<rparr>)"
proof -
  have l: "rows_3500_halves
           = [\<lparr>chunk_size = 500, chunk_bytes = 4000\<rparr>, \<lparr>chunk_size = 500, chunk_bytes = 4000\<rparr>,
              \<lparr>chunk_size = 500, chunk_bytes = 4000\<rparr>, \<lparr>chunk_size = 500, chunk_bytes = 4000\<rparr>,
              \<lparr>chunk_size = 500, chunk_bytes = 4000\<rparr>, \<lparr>chunk_size = 500, chunk_bytes = 4000\<rparr>,
              \<lparr>chunk_size = 500, chunk_bytes = 4000\<rparr>]"
    by (simp add: rows_3500_halves_def eval_nat_numeral)
  have r: "rows_nat rows_3500_halves = 3500" by (simp add: l)
  have b: "bytes_nat rows_3500_halves < 2 ^ 64" by (simp add: l)
  have p: "partial_rows rows_3500_halves = [0, 500, 1000, 1500, 2000, 2500, 3000, 3500]"
    by (simp add: l partial_rows_def upt_rec)
  have h: "1000 \<in> set (partial_rows rows_3500_halves)"
    "2000 \<in> set (partial_rows rows_3500_halves)" "3000 \<in> set (partial_rows rows_3500_halves)"
    by (simp_all add: p)
  have r': "rows_nat rows_3500_aligned = 3500" by (simp add: rows_3500_aligned_def)
  have b': "bytes_nat rows_3500_aligned < 2 ^ 64" by (simp add: rows_3500_aligned_def)
  have p': "partial_rows rows_3500_aligned = [0, 1000, 2000, 3000, 3500]"
    by (simp add: rows_3500_aligned_def partial_rows_def upt_rec)
  have h': "1000 \<in> set (partial_rows rows_3500_aligned)"
    "2000 \<in> set (partial_rows rows_3500_aligned)" "3000 \<in> set (partial_rows rows_3500_aligned)"
    by (simp_all add: p')
  from oversize_collection_cut_at_batch_size[OF r h b]
  have f: "batch_0_then_finalize rows_3500_halves
       = Inr (recording_state
            \<lparr>global_state := \<lparr>prepared_rows = [1000, 1000, 1000, 500],
                               flushed_rows = [1000, 1000, 1000, 500], finalized = True\<rparr>,
             scheduled_batch_index := 4, flushed_batch_index := 4,
             unflushed_memory_usage := 0, min_batch_index := 1,
             task_queue := [], flush_trace := [0, 1, 2, 3]\<rparr>)"
    and c: "batch_0_combine_finalize rows_3500_halves
       = Inr (recording_state
            \<lparr>rows_copied := 3500,
             global_state := \<lparr>prepared_rows = [1000, 1000, 1000, 500],
                               flushed_rows = [1000, 1000, 1000, 500], finalized = True\<rparr>,
             scheduled_batch_index := 4, flushed_batch_index := 4, any_finished := True,
             unflushed_memory_usage := 0, min_batch_index := 1,
             task_queue := [], flush_trace := [0, 1, 2, 3]\<rparr>)"
    by blast+
  from oversize_collection_cut_at_batch_size[OF r' h' b']
  have f': "batch_0_then_finalize rows_3500_aligned
       = Inr (recording_state
            \<lparr>global_state := \<lparr>prepared_rows = [1000, 1000, 1000, 500],
                               flushed_rows = [1000, 1000, 1000, 500], finalized = True\<rparr>,
             scheduled_batch_index := 4, flushed_batch_index := 4,
             unflushed_memory_usage := 0, min_batch_index := 1,
             task_queue := [], flush_trace := [0, 1, 2, 3]\<rparr>)"
    by blast
  from r h b f c r' h' b' f' show ?thesis by simp
qed

text \<open>
  Claim C3 as it was stated fails when the 3500 rows of batch 0 come in chunks filled up
  to \<^verbatim>\<open>STANDARD_VECTOR_SIZE\<close> (2048 and 1452 rows): the collection is cut where a chunk
  ends, into 2048 and 1452 rows, and there are two flushes, of the batches 0 and 1.
\<close>

theorem oversize_collection_full_vectors_counterexample:
  "Count rows_3500_full_vectors = 3500
   \<and> list_all (\<lambda>chunk. chunk_size chunk \<le> STANDARD_VECTOR_SIZE) rows_3500_full_vectors
   \<and> batch_0_then_finalize rows_3500_full_vectors
       = Inr (recording_state
          \<lparr>global_state := \<lparr>prepared_rows = [2048, 1452], flushed_rows = [2048, 1452],
                             finalized = True\<rparr>,
           scheduled_batch_index := 2, flushed_batch_index := 2,
           unflushed_memory_usage := 0, min_batch_index := 1,
           task_queue := [], flush_trace := [0, 1]\<rparr>)"
  by (simp add: batch_0_then_finalize_def batch_0_then_next_batch_def
        GetGlobalSinkState_recording sink_3500_full_vectors next_batch_3500_full_vectors
        finalize_3500_full_vectors)
     (simp add: rows_3500_full_vectors_def Count_def STANDARD_VECTOR_SIZE_def)

subsection \<open>The size of the scheduled collections\<close>




lemma Count_Append: "Count (Append c chunk) = Count c + chunk_size chunk"
  by (simp add: Count_def Append_def)

lemma Count_Nil: "Count [] = 0"
  by (simp add: Count_def)










subsection \<open>The producer at the minimum batch index\<close>

lemma same_producers_refl: "same_producers g g"
  by (simp add: same_producers_def)

lemma FlushBatchData_loop_same_producers:
  "FlushBatchData_loop op g = Inr g' \<Longrightarrow> same_producers g g'"
proof (induction op g rule: FlushBatchData_loop.induct)
  case (1 op g)
  show ?case
  proof (cases "batch_data g")
    case Nil
    with "1.prems" show ?thesis
      by (simp add: FlushBatchData_loop.simps[of op g] same_producers_def)
  next
    case (Cons entry rest)
    show ?thesis
    proof (cases "fst entry = flushed_batch_index g")
      case False
      with Cons "1.prems" show ?thesis
        by (simp add: FlushBatchData_loop.simps[of op g] same_producers_def)
    next
      case True
      then have nlt: "\<not> fst entry < flushed_batch_index g" by simp
      from Cons True "1.prems" obtain flush gs where
        fl: "flush_batch (copy_function op) = Some flush"
        and fg: "flush (global_state g) (prepared_data (snd entry)) = Inr gs"
        by (auto simp: FlushBatchData_loop.simps[of op g] split: option.splits sum.splits)
      from "1.IH"[OF Cons _ nlt fl fg] Cons True fl fg "1.prems"
      show ?thesis by (simp add: FlushBatchData_loop.simps[of op g] same_producers_def)
    qed
  qed
qed

lemma FlushBatchData_same_producers:
  "FlushBatchData op g m = Inr g' \<Longrightarrow> same_producers g g'"
  by (auto simp: FlushBatchData_def same_producers_def split: if_splits sum.splits
           dest!: FlushBatchData_loop_same_producers)

lemma AddBatchData_same_producers:
  "AddBatchData g i b m = Inr g' \<Longrightarrow> same_producers g g'"
  by (auto simp: AddBatchData_def Let_def same_producers_def split: if_splits)

lemma Execute_same_producers:
  assumes "Execute task op g = Inr g'"
  shows "same_producers g g'"
proof (cases task)
  case RepartitionedFlushTask
  with assms show ?thesis by (simp add: FlushBatchData_same_producers)
next
  case (PrepareBatchTask i c)
  with assms obtain r g1 where
    ab: "AddBatchData (g\<lparr>global_state := snd r\<rparr>) i (fst r) (SizeInBytes c) = Inr g1"
    and g': "g' = (if i = flushed_batch_index g1 then AddTask g1 RepartitionedFlushTask else g1)"
    by (auto simp: Let_def split: option.splits sum.splits)
  from AddBatchData_same_producers[OF ab] g' show ?thesis
    by (simp add: same_producers_def AddTask_def)
qed

lemma ExecuteTask_same_producers:
  "ExecuteTask op g = Inr r \<Longrightarrow> same_producers g (snd r)"
  by (auto simp: ExecuteTask_def GetTask_def same_producers_def
           split: list.splits sum.splits dest!: Execute_same_producers)

lemma ExecuteTasks_same_producers:
  "ExecuteTasks op g = Inr g' \<Longrightarrow> same_producers g g'"
proof (induction op g rule: ExecuteTasks.induct)
  case (1 op g)
  from "1.prems" obtain r where r: "ExecuteTask op g = Inr r"
    by (auto simp: ExecuteTasks.simps[of op g] split: sum.splits)
  note sp = ExecuteTask_same_producers[OF r]
  show ?case
  proof (cases "fst r")
    case True
    with r "1.prems" have "ExecuteTasks op (snd r) = Inr g'"
      by (simp add: ExecuteTasks.simps[of op g])
    from "1.IH"[OF r True this] sp show ?thesis by (simp add: same_producers_def)
  next
    case False
    with r "1.prems" have "g' = snd r" by (simp add: ExecuteTasks.simps[of op g])
    with sp show ?thesis by simp
  qed
qed

lemma Sink_processing_tasks_at_minimum:
  assumes "Sink_processing_tasks op i (min_batch_index gstate) state gstate = Inr r"
  shows "fst r = None \<and> same_producers gstate (snd (snd r))"
proof -
  from assms obtain g1 g2 where e: "ExecuteTasks op gstate = Inr g1"
    and f: "FlushBatchData op g1 (min_batch_index g1) = Inr g2"
    by (auto simp: Sink_processing_tasks_def split: sum.splits)
  from ExecuteTasks_same_producers[OF e] FlushBatchData_same_producers[OF f]
  have sp: "same_producers gstate g2" by (simp add: same_producers_def)
  then have "\<not> min_batch_index gstate > min_batch_index g2" by (simp add: same_producers_def)
  with assms e f sp show ?thesis by (auto simp: Sink_processing_tasks_def)
qed

lemma Sink_append_result:
  "Sink_append chunk b state gstate = Inr r \<Longrightarrow>
   fst r = NEED_MORE_INPUT \<and> same_producers gstate (snd (snd r))"
  by (auto simp: Sink_append_def Let_def same_producers_def split: option.splits if_splits)

text \<open>
  Claim C5. For a producer whose batch index is \<^verbatim>\<open>min_batch_index\<close>, \<^verbatim>\<open>OutOfMemory\<close>
  returns false and leaves the state as it is, and \<^verbatim>\<open>Sink\<close> does not return \<^verbatim>\<open>BLOCKED\<close>:
  where it returns, the result is \<^verbatim>\<open>NEED_MORE_INPUT\<close> and the blocked tasks are those of
  before.
\<close>

theorem Sink_at_minimum_never_blocked:
  assumes "partition_batch_index state = Some b" and "b = min_batch_index gstate"
  shows "OutOfMemory gstate b = (False, gstate)
         \<and> (\<forall>s g'. Sink op chunk i state gstate \<noteq> Inr (BLOCKED, s, g'))
         \<and> (\<forall>r. Sink op chunk i state gstate = Inr r
                \<longrightarrow> fst r = NEED_MORE_INPUT
                    \<and> blocked_tasks (snd (snd r)) = blocked_tasks gstate)"
proof -
  have oom: "OutOfMemory gstate b = (False, gstate)"
    using assms(2) by (simp add: OutOfMemory_def)
  have gi: "GetIndex (partition_batch_index state) = Inr b"
    using assms(1) by (simp add: GetIndex_def)
  have res: "fst r = NEED_MORE_INPUT \<and> same_producers gstate (snd (snd r))"
    if r: "Sink op chunk i state gstate = Inr r" for r
  proof (cases "current_task state = PROCESSING_TASKS")
    case True
    from r gi True obtain p where
      p: "Sink_processing_tasks op i b state gstate = Inr p"
      by (auto simp: Sink.simps[of op chunk i state gstate] split: sum.splits)
    from Sink_processing_tasks_at_minimum[of op i gstate state p] p assms(2)
    have pn: "fst p = None" and sp: "same_producers gstate (snd (snd p))" by simp_all
    from sp assms(2) have ngt: "\<not> b > min_batch_index (snd (snd p))"
      by (simp add: same_producers_def)
    from r gi True p pn ngt
    have "Sink_append chunk b (fst (snd p)) (snd (snd p)) = Inr r"
      by (simp add: Sink.simps[of op chunk i state gstate])
    from Sink_append_result[OF this] sp show ?thesis by (simp add: same_producers_def)
  next
    case False
    with r gi assms(2) have "Sink_append chunk b state gstate = Inr r"
      by (simp add: Sink.simps[of op chunk i state gstate])
    from Sink_append_result[OF this] show ?thesis .
  qed
  have nb: "Sink op chunk i state gstate \<noteq> Inr (BLOCKED, s, g')" for s g'
  proof
    assume "Sink op chunk i state gstate = Inr (BLOCKED, s, g')"
    from res[OF this] show False by simp
  qed
  from oom res nb show ?thesis by (auto simp: same_producers_def)
qed

theorem Sink_at_minimum_never_blocked_witness:
  "partition_batch_index
      (GetLocalSinkState\<lparr>current_task := PROCESSING_TASKS, partition_batch_index := Some 0,
                          partition_min_batch_index := Some 0\<rparr>) = Some 0
   \<and> 0 = min_batch_index (recording_state\<lparr>unflushed_memory_usage := 4194304\<rparr>)
   \<and> available_memory (recording_state\<lparr>unflushed_memory_usage := 4194304\<rparr>)
       \<le> unflushed_memory_usage (recording_state\<lparr>unflushed_memory_usage := 4194304\<rparr>)
   \<and> OutOfMemory (recording_state\<lparr>unflushed_memory_usage := 4194304\<rparr>) 0
       = (False, recording_state\<lparr>unflushed_memory_usage := 4194304\<rparr>)
   \<and> Sink recording_op \<lparr>chunk_size = 1000, chunk_bytes = 8000\<rparr> 7
        (GetLocalSinkState\<lparr>current_task := PROCESSING_TASKS, partition_batch_index := Some 0,
                            partition_min_batch_index := Some 0\<rparr>)
        (recording_state\<lparr>unflushed_memory_usage := 4194304\<rparr>)
       = Inr (NEED_MORE_INPUT,
              \<lparr>collection = Some [\<lparr>chunk_size = 1000, chunk_bytes = 8000\<rparr>],
               local_rows_copied = 1000, local_memory_usage = 8000, batch_index = Some 0,
               current_task = SINKING_DATA, partition_batch_index = Some 0,
               partition_min_batch_index = Some 0\<rparr>,
              recording_state\<lparr>unflushed_memory_usage := 4202304\<rparr>)"
proof -
  have s: "Sink recording_op \<lparr>chunk_size = 1000, chunk_bytes = 8000\<rparr> 7
        (GetLocalSinkState\<lparr>current_task := PROCESSING_TASKS, partition_batch_index := Some 0,
                            partition_min_batch_index := Some 0\<rparr>)
        (recording_state\<lparr>unflushed_memory_usage := 4194304\<rparr>)
       = Inr (NEED_MORE_INPUT,
              \<lparr>collection = Some [\<lparr>chunk_size = 1000, chunk_bytes = 8000\<rparr>],
               local_rows_copied = 1000, local_memory_usage = 8000, batch_index = Some 0,
               current_task = SINKING_DATA, partition_batch_index = Some 0,
               partition_min_batch_index = Some 0\<rparr>,
              recording_state\<lparr>unflushed_memory_usage := 4202304\<rparr>)"
    by (simp add: Sink.simps Sink_processing_tasks_def Sink_append_def ExecuteTasks.simps
          ExecuteTask_def GetTask_def FlushBatchData_def FlushBatchData_loop.simps
          GetIndex_def GetLocalSinkState_def recording_state_def InitializeCollection_def
          Append_def SizeInBytes_def Let_def)
  show ?thesis
    using Sink_at_minimum_never_blocked
      [of "GetLocalSinkState\<lparr>current_task := PROCESSING_TASKS, partition_batch_index := Some 0,
                            partition_min_batch_index := Some 0\<rparr>" 0
          "recording_state\<lparr>unflushed_memory_usage := 4194304\<rparr>" recording_op
          "\<lparr>chunk_size = 1000, chunk_bytes = 8000\<rparr>" 7] s
    by (simp add: GetLocalSinkState_def recording_state_def)
qed

subsection \<open>FinalFlush\<close>

lemma FlushBatchData_loop_scheduled_batch_index:
  "FlushBatchData_loop op g = Inr g' \<Longrightarrow> scheduled_batch_index g' = scheduled_batch_index g"
proof (induction op g rule: FlushBatchData_loop.induct)
  case (1 op g)
  show ?case
  proof (cases "batch_data g")
    case Nil
    with "1.prems" show ?thesis by (simp add: FlushBatchData_loop.simps[of op g])
  next
    case (Cons entry rest)
    show ?thesis
    proof (cases "fst entry = flushed_batch_index g")
      case False
      with Cons "1.prems" show ?thesis by (simp add: FlushBatchData_loop.simps[of op g])
    next
      case True
      then have nlt: "\<not> fst entry < flushed_batch_index g" by simp
      from Cons True "1.prems" obtain flush gs where
        fl: "flush_batch (copy_function op) = Some flush"
        and fg: "flush (global_state g) (prepared_data (snd entry)) = Inr gs"
        by (auto simp: FlushBatchData_loop.simps[of op g] split: option.splits sum.splits)
      from "1.IH"[OF Cons _ nlt fl fg] Cons True fl fg "1.prems"
      show ?thesis by (simp add: FlushBatchData_loop.simps[of op g])
    qed
  qed
qed

lemma FlushBatchData_scheduled_batch_index:
  "FlushBatchData op g m = Inr g' \<Longrightarrow> scheduled_batch_index g' = scheduled_batch_index g"
  by (auto simp: FlushBatchData_def split: if_splits sum.splits
           dest: FlushBatchData_loop_scheduled_batch_index)

lemma FlushBatchData_consecutive:
  assumes "FlushBatchData op g min_index = Inr g'"
  shows "\<exists>n. flush_trace g' = flush_trace g @ map (\<lambda>i. flushed_batch_index g + of_nat i) [0..<n]
             \<and> flushed_batch_index g' = flushed_batch_index g + of_nat n"
proof (cases "any_flushing g")
  case True
  with assms have "g' = g" by (simp add: FlushBatchData_def)
  then show ?thesis by (intro exI[of _ 0]) simp
next
  case False
  with assms obtain g1 where l: "FlushBatchData_loop op (g\<lparr>any_flushing := True\<rparr>) = Inr g1"
    and g': "g' = g1\<lparr>any_flushing := False\<rparr>"
    by (auto simp: FlushBatchData_def split: sum.splits)
  from FlushBatchData_loop_in_order[OF l] g' show ?thesis by simp
qed

text \<open>
  Claim C6. \<^verbatim>\<open>FinalFlush\<close> fails with "unexecuted tasks" when the task queue is not empty
  as it is entered; otherwise it flushes with \<^verbatim>\<open>min_index\<close> the largest \<^verbatim>\<open>int64_t\<close>, fails
  with the error of that flush if it has one, and fails with "incomplete file" when
  \<^verbatim>\<open>scheduled_batch_index\<close> and \<^verbatim>\<open>flushed_batch_index\<close> differ afterwards. Where it
  returns, the queue was empty, the state it returns is the state \<open>g1\<close> that flush left, but
  for what \<^verbatim>\<open>copy_to_finalize\<close> did to the sink and for the move of the temporary file, the
  two indices are equal, and the batches flushed are those from the \<^verbatim>\<open>flushed_batch_index\<close>
  at entry up to \<^verbatim>\<open>scheduled_batch_index\<close>, in ascending order.
\<close>

theorem FinalFlush_checks:
  "(task_queue g \<noteq> [] \<longrightarrow> FinalFlush op g = Inl UnexecutedTasksRemaining)
   \<and> (\<forall>g1. task_queue g = [] \<and> FlushBatchData op g INT64_MAXIMUM = Inr g1
             \<and> scheduled_batch_index g1 \<noteq> flushed_batch_index g1
          \<longrightarrow> FinalFlush op g = Inl NotAllBatchesFlushed)
   \<and> (\<forall>e. task_queue g = [] \<and> FlushBatchData op g INT64_MAXIMUM = Inl e
          \<longrightarrow> FinalFlush op g = Inl e)
   \<and> (\<forall>g'. FinalFlush op g = Inr g'
          \<longrightarrow> task_queue g = []
              \<and> (\<exists>g1. FlushBatchData op g INT64_MAXIMUM = Inr g1
                       \<and> scheduled_batch_index g1 = flushed_batch_index g1
                       \<and> g'\<lparr>global_state := global_state g1,
                              tmp_file_moved := tmp_file_moved g1\<rparr> = g1
                       \<and> (case copy_to_finalize (copy_function op) of
                             None \<Rightarrow> g' = g1
                           | Some finalize \<Rightarrow>
                               finalize (global_state g1) = Inr (global_state g')
                               \<and> tmp_file_moved g' = (use_tmp_file op \<or> tmp_file_moved g1)))
              \<and> scheduled_batch_index g' = scheduled_batch_index g
              \<and> flushed_batch_index g' = scheduled_batch_index g
              \<and> (\<exists>n. flush_trace g'
                         = flush_trace g @ map (\<lambda>i. flushed_batch_index g + of_nat i) [0..<n]
                      \<and> scheduled_batch_index g = flushed_batch_index g + of_nat n))"
proof (intro conjI allI impI)
  show "FinalFlush op g = Inl UnexecutedTasksRemaining" if "task_queue g \<noteq> []"
    using that by (simp add: FinalFlush_def TaskCount_def)
next
  fix g1
  assume "task_queue g = [] \<and> FlushBatchData op g INT64_MAXIMUM = Inr g1
             \<and> scheduled_batch_index g1 \<noteq> flushed_batch_index g1"
  then show "FinalFlush op g = Inl NotAllBatchesFlushed"
    by (simp add: FinalFlush_def TaskCount_def)
next
  fix e
  assume "task_queue g = [] \<and> FlushBatchData op g INT64_MAXIMUM = Inl e"
  then show "FinalFlush op g = Inl e"
    by (simp add: FinalFlush_def TaskCount_def)
next
  fix g'
  assume r: "FinalFlush op g = Inr g'"
  then show "task_queue g = []"
    by (auto simp: FinalFlush_def TaskCount_def split: if_splits)
  from r obtain g1 where f: "FlushBatchData op g INT64_MAXIMUM = Inr g1"
    and eq: "scheduled_batch_index g1 = flushed_batch_index g1"
    and g': "case copy_to_finalize (copy_function op) of
               None \<Rightarrow> g' = g1
             | Some finalize \<Rightarrow>
                 \<exists>gs. finalize (global_state g1) = Inr gs
                   \<and> g' = (if use_tmp_file op
                           then g1\<lparr>global_state := gs, tmp_file_moved := True\<rparr>
                           else g1\<lparr>global_state := gs\<rparr>)"
    by (auto simp: FinalFlush_def TaskCount_def split: sum.splits option.splits if_splits)
  have same: "g'\<lparr>global_state := global_state g1, tmp_file_moved := tmp_file_moved g1\<rparr> = g1"
  proof (cases "copy_to_finalize (copy_function op)")
    case None
    with g' show ?thesis by simp
  next
    case (Some finalize)
    with g' obtain gs where "g' = (if use_tmp_file op
                           then g1\<lparr>global_state := gs, tmp_file_moved := True\<rparr>
                           else g1\<lparr>global_state := gs\<rparr>)" by auto
    then show ?thesis by (cases "use_tmp_file op") simp_all
  qed
  have fin: "case copy_to_finalize (copy_function op) of
               None \<Rightarrow> g' = g1
             | Some finalize \<Rightarrow>
                 finalize (global_state g1) = Inr (global_state g')
                 \<and> tmp_file_moved g' = (use_tmp_file op \<or> tmp_file_moved g1)"
  proof (cases "copy_to_finalize (copy_function op)")
    case None
    with g' show ?thesis by simp
  next
    case (Some finalize)
    with g' obtain gs where gs: "finalize (global_state g1) = Inr gs"
      and "g' = (if use_tmp_file op
                           then g1\<lparr>global_state := gs, tmp_file_moved := True\<rparr>
                           else g1\<lparr>global_state := gs\<rparr>)" by auto
    with Some show ?thesis by (cases "use_tmp_file op") simp_all
  qed
  from f eq same fin
  show "\<exists>g1. FlushBatchData op g INT64_MAXIMUM = Inr g1
           \<and> scheduled_batch_index g1 = flushed_batch_index g1
           \<and> g'\<lparr>global_state := global_state g1, tmp_file_moved := tmp_file_moved g1\<rparr> = g1
           \<and> (case copy_to_finalize (copy_function op) of
                 None \<Rightarrow> g' = g1
               | Some finalize \<Rightarrow>
                   finalize (global_state g1) = Inr (global_state g')
                   \<and> tmp_file_moved g' = (use_tmp_file op \<or> tmp_file_moved g1))"
    by blast
  have fields: "scheduled_batch_index g' = scheduled_batch_index g1"
    "flushed_batch_index g' = flushed_batch_index g1" "flush_trace g' = flush_trace g1"
    using arg_cong[OF same, of scheduled_batch_index] arg_cong[OF same, of flushed_batch_index]
      arg_cong[OF same, of flush_trace] by simp_all
  from FlushBatchData_scheduled_batch_index[OF f] fields eq
  show "scheduled_batch_index g' = scheduled_batch_index g"
    and "flushed_batch_index g' = scheduled_batch_index g" by simp_all
  from FlushBatchData_consecutive[OF f] obtain n where
    "flush_trace g1 = flush_trace g @ map (\<lambda>i. flushed_batch_index g + of_nat i) [0..<n]"
    "flushed_batch_index g1 = flushed_batch_index g + of_nat n" by blast
  with fields eq FlushBatchData_scheduled_batch_index[OF f]
  show "\<exists>n. flush_trace g'
              = flush_trace g @ map (\<lambda>i. flushed_batch_index g + of_nat i) [0..<n]
           \<and> scheduled_batch_index g = flushed_batch_index g + of_nat n"
    by (intro exI[of _ n]) simp
qed

theorem FinalFlush_checks_witness:
  "task_queue (recording_state\<lparr>task_queue := [RepartitionedFlushTask]\<rparr>) \<noteq> []
   \<and> FinalFlush recording_op (recording_state\<lparr>task_queue := [RepartitionedFlushTask]\<rparr>)
       = Inl UnexecutedTasksRemaining
   \<and> task_queue (recording_state
        \<lparr>batch_data := [(0, \<lparr>memory_usage = 8000, prepared_data = 1000\<rparr>)],
         scheduled_batch_index := 2, unflushed_memory_usage := 8000\<rparr>) = []
   \<and> FlushBatchData recording_op
       (recording_state
        \<lparr>batch_data := [(0, \<lparr>memory_usage = 8000, prepared_data = 1000\<rparr>)],
         scheduled_batch_index := 2, unflushed_memory_usage := 8000\<rparr>) INT64_MAXIMUM
     = Inr (recording_state
        \<lparr>global_state := \<lparr>prepared_rows = [], flushed_rows = [1000], finalized = False\<rparr>,
         scheduled_batch_index := 2, flushed_batch_index := 1, flush_trace := [0]\<rparr>)
   \<and> scheduled_batch_index (recording_state
        \<lparr>global_state := \<lparr>prepared_rows = [], flushed_rows = [1000], finalized = False\<rparr>,
         scheduled_batch_index := 2, flushed_batch_index := 1, flush_trace := [0]\<rparr>)
       \<noteq> flushed_batch_index (recording_state
        \<lparr>global_state := \<lparr>prepared_rows = [], flushed_rows = [1000], finalized = False\<rparr>,
         scheduled_batch_index := 2, flushed_batch_index := 1, flush_trace := [0]\<rparr>)
   \<and> FinalFlush recording_op
       (recording_state
        \<lparr>batch_data := [(0, \<lparr>memory_usage = 8000, prepared_data = 1000\<rparr>)],
         scheduled_batch_index := 2, unflushed_memory_usage := 8000\<rparr>)
     = Inl NotAllBatchesFlushed
   \<and> task_queue (recording_state
        \<lparr>batch_data := [(0, \<lparr>memory_usage = 8000, prepared_data = 1000\<rparr>),
                        (1, \<lparr>memory_usage = 4000, prepared_data = 500\<rparr>)],
         scheduled_batch_index := 2, unflushed_memory_usage := 12000\<rparr>) = []
   \<and> FlushBatchData recording_op
       (recording_state
        \<lparr>batch_data := [(0, \<lparr>memory_usage = 8000, prepared_data = 1000\<rparr>),
                        (1, \<lparr>memory_usage = 4000, prepared_data = 500\<rparr>)],
         scheduled_batch_index := 2, unflushed_memory_usage := 12000\<rparr>) INT64_MAXIMUM
     = Inr (recording_state
        \<lparr>global_state := \<lparr>prepared_rows = [], flushed_rows = [1000, 500], finalized = False\<rparr>,
         scheduled_batch_index := 2, flushed_batch_index := 2, flush_trace := [0, 1]\<rparr>)
   \<and> FinalFlush recording_op
       (recording_state
        \<lparr>batch_data := [(0, \<lparr>memory_usage = 8000, prepared_data = 1000\<rparr>),
                        (1, \<lparr>memory_usage = 4000, prepared_data = 500\<rparr>)],
         scheduled_batch_index := 2, unflushed_memory_usage := 12000\<rparr>)
     = Inr (recording_state
        \<lparr>global_state := \<lparr>prepared_rows = [], flushed_rows = [1000, 500], finalized = True\<rparr>,
         scheduled_batch_index := 2, flushed_batch_index := 2, flush_trace := [0, 1]\<rparr>)
   \<and> (\<exists>n. flush_trace (recording_state
        \<lparr>global_state := \<lparr>prepared_rows = [], flushed_rows = [1000, 500], finalized = True\<rparr>,
         scheduled_batch_index := 2, flushed_batch_index := 2, flush_trace := [0, 1]\<rparr>)
          = flush_trace (recording_state
        \<lparr>batch_data := [(0, \<lparr>memory_usage = 8000, prepared_data = 1000\<rparr>),
                        (1, \<lparr>memory_usage = 4000, prepared_data = 500\<rparr>)],
         scheduled_batch_index := 2, unflushed_memory_usage := 12000\<rparr>)
            @ map (\<lambda>i. flushed_batch_index (recording_state
        \<lparr>batch_data := [(0, \<lparr>memory_usage = 8000, prepared_data = 1000\<rparr>),
                        (1, \<lparr>memory_usage = 4000, prepared_data = 500\<rparr>)],
         scheduled_batch_index := 2, unflushed_memory_usage := 12000\<rparr>) + of_nat i) [0..<n]
        \<and> scheduled_batch_index (recording_state
        \<lparr>batch_data := [(0, \<lparr>memory_usage = 8000, prepared_data = 1000\<rparr>),
                        (1, \<lparr>memory_usage = 4000, prepared_data = 500\<rparr>)],
         scheduled_batch_index := 2, unflushed_memory_usage := 12000\<rparr>)
          = flushed_batch_index (recording_state
        \<lparr>batch_data := [(0, \<lparr>memory_usage = 8000, prepared_data = 1000\<rparr>),
                        (1, \<lparr>memory_usage = 4000, prepared_data = 500\<rparr>)],
         scheduled_batch_index := 2, unflushed_memory_usage := 12000\<rparr>) + of_nat n)"
proof -
  have fb: "FlushBatchData recording_op
       (recording_state
        \<lparr>batch_data := [(0, \<lparr>memory_usage = 8000, prepared_data = 1000\<rparr>)],
         scheduled_batch_index := 2, unflushed_memory_usage := 8000\<rparr>) INT64_MAXIMUM
     = Inr (recording_state
        \<lparr>global_state := \<lparr>prepared_rows = [], flushed_rows = [1000], finalized = False\<rparr>,
         scheduled_batch_index := 2, flushed_batch_index := 1, flush_trace := [0]\<rparr>)"
    by (simp add: FlushBatchData_def FlushBatchData_loop.simps recording_state_def
          recording_op_def recording_function_def)
  have fa: "FlushBatchData recording_op
       (recording_state
        \<lparr>batch_data := [(0, \<lparr>memory_usage = 8000, prepared_data = 1000\<rparr>),
                        (1, \<lparr>memory_usage = 4000, prepared_data = 500\<rparr>)],
         scheduled_batch_index := 2, unflushed_memory_usage := 12000\<rparr>) INT64_MAXIMUM
     = Inr (recording_state
        \<lparr>global_state := \<lparr>prepared_rows = [], flushed_rows = [1000, 500], finalized = False\<rparr>,
         scheduled_batch_index := 2, flushed_batch_index := 2, flush_trace := [0, 1]\<rparr>)"
    by (simp add: FlushBatchData_def FlushBatchData_loop.simps recording_state_def
          recording_op_def recording_function_def)
  have ffa: "FinalFlush recording_op
       (recording_state
        \<lparr>batch_data := [(0, \<lparr>memory_usage = 8000, prepared_data = 1000\<rparr>),
                        (1, \<lparr>memory_usage = 4000, prepared_data = 500\<rparr>)],
         scheduled_batch_index := 2, unflushed_memory_usage := 12000\<rparr>)
     = Inr (recording_state
        \<lparr>global_state := \<lparr>prepared_rows = [], flushed_rows = [1000, 500], finalized = True\<rparr>,
         scheduled_batch_index := 2, flushed_batch_index := 2, flush_trace := [0, 1]\<rparr>)"
    by (simp add: FinalFlush_def fa TaskCount_def)
       (simp add: recording_state_def recording_op_def recording_function_def)
  have tq: "task_queue recording_state = []" by (simp add: recording_state_def)
  have c1: "FinalFlush recording_op (recording_state\<lparr>task_queue := [RepartitionedFlushTask]\<rparr>)
       = Inl UnexecutedTasksRemaining"
    by (rule FinalFlush_checks[THEN conjunct1, rule_format]) simp
  have c2: "FinalFlush recording_op
       (recording_state
        \<lparr>batch_data := [(0, \<lparr>memory_usage = 8000, prepared_data = 1000\<rparr>)],
         scheduled_batch_index := 2, unflushed_memory_usage := 8000\<rparr>)
     = Inl NotAllBatchesFlushed"
    by (rule FinalFlush_checks[THEN conjunct2, THEN conjunct1,
          THEN spec[where x = "recording_state
        \<lparr>global_state := \<lparr>prepared_rows = [], flushed_rows = [1000], finalized = False\<rparr>,
         scheduled_batch_index := 2, flushed_batch_index := 1, flush_trace := [0]\<rparr>"], THEN mp])
       (simp add: fb tq)
  have c4: "\<exists>n. flush_trace (recording_state
        \<lparr>global_state := \<lparr>prepared_rows = [], flushed_rows = [1000, 500], finalized = True\<rparr>,
         scheduled_batch_index := 2, flushed_batch_index := 2, flush_trace := [0, 1]\<rparr>)
          = flush_trace (recording_state
        \<lparr>batch_data := [(0, \<lparr>memory_usage = 8000, prepared_data = 1000\<rparr>),
                        (1, \<lparr>memory_usage = 4000, prepared_data = 500\<rparr>)],
         scheduled_batch_index := 2, unflushed_memory_usage := 12000\<rparr>)
            @ map (\<lambda>i. flushed_batch_index (recording_state
        \<lparr>batch_data := [(0, \<lparr>memory_usage = 8000, prepared_data = 1000\<rparr>),
                        (1, \<lparr>memory_usage = 4000, prepared_data = 500\<rparr>)],
         scheduled_batch_index := 2, unflushed_memory_usage := 12000\<rparr>) + of_nat i) [0..<n]
        \<and> scheduled_batch_index (recording_state
        \<lparr>batch_data := [(0, \<lparr>memory_usage = 8000, prepared_data = 1000\<rparr>),
                        (1, \<lparr>memory_usage = 4000, prepared_data = 500\<rparr>)],
         scheduled_batch_index := 2, unflushed_memory_usage := 12000\<rparr>)
          = flushed_batch_index (recording_state
        \<lparr>batch_data := [(0, \<lparr>memory_usage = 8000, prepared_data = 1000\<rparr>),
                        (1, \<lparr>memory_usage = 4000, prepared_data = 500\<rparr>)],
         scheduled_batch_index := 2, unflushed_memory_usage := 12000\<rparr>) + of_nat n"
    using FinalFlush_checks[of "recording_state
        \<lparr>batch_data := [(0, \<lparr>memory_usage = 8000, prepared_data = 1000\<rparr>),
                        (1, \<lparr>memory_usage = 4000, prepared_data = 500\<rparr>)],
         scheduled_batch_index := 2, unflushed_memory_usage := 12000\<rparr>" recording_op] ffa
    by blast
  show ?thesis
    using c1 c2 c4 fa fb ffa tq by simp
qed

subsection \<open>OutOfMemory and the growth of the reservation\<close>

text \<open>
  Claim C7, as amended. When the predicate "out of memory" holds, the batch index is above
  \<^verbatim>\<open>min_batch_index\<close>, \<^verbatim>\<open>can_increase_memory\<close> is true and the minimum of twice
  \<^verbatim>\<open>available_memory\<close> and a quarter of the query's maximal memory is above
  \<^verbatim>\<open>available_memory\<close>, \<^verbatim>\<open>OutOfMemory\<close> asks the broker for that minimum, reads the
  reservation into \<^verbatim>\<open>available_memory\<close> and clears \<^verbatim>\<open>can_increase_memory\<close> when the
  reservation did not grow. When that minimum is not above \<^verbatim>\<open>available_memory\<close>, no
  request is made: \<^verbatim>\<open>IncreaseMemory\<close> and \<^verbatim>\<open>OutOfMemory\<close> leave the state as it is. Once
  \<^verbatim>\<open>can_increase_memory\<close> is false, \<^verbatim>\<open>IncreaseMemory\<close> and \<^verbatim>\<open>OutOfMemory\<close> leave the state
  as it is, and \<^verbatim>\<open>SetMemorySize\<close> never sets the flag.
\<close>

theorem OutOfMemory_growth_request:
  "(available_memory g \<le> unflushed_memory_usage g \<and> min_batch_index g < b
      \<and> can_increase_memory g
      \<and> available_memory g
          < min (available_memory g * 2) (GetQueryMaxMemory (client_context g) div 4)
    \<longrightarrow> memory_state (snd (OutOfMemory g b))
          = SetRemainingSize (client_context g) (memory_state g)
              (min (available_memory g * 2) (GetQueryMaxMemory (client_context g) div 4))
        \<and> available_memory (snd (OutOfMemory g b))
          = GetReservation (memory_state (snd (OutOfMemory g b)))
        \<and> can_increase_memory (snd (OutOfMemory g b))
          = (available_memory g < GetReservation (memory_state (snd (OutOfMemory g b))))
        \<and> fst (OutOfMemory g b)
          = (GetReservation (memory_state (snd (OutOfMemory g b))) \<le> unflushed_memory_usage g))
   \<and> (min (available_memory g * 2) (GetQueryMaxMemory (client_context g) div 4)
          \<le> available_memory g
        \<longrightarrow> IncreaseMemory g = g \<and> snd (OutOfMemory g b) = g)
   \<and> (\<not> can_increase_memory g
        \<longrightarrow> IncreaseMemory g = g \<and> snd (OutOfMemory g b) = g
            \<and> \<not> can_increase_memory (SetMemorySize g sz))"
  by (auto simp: OutOfMemory_def IncreaseMemory_def SetMemorySize_def Let_def
                 SetRemainingSize_def GetReservation_def
           simp flip: not_less)

text \<open>
  Claim C7 as it was stated fails where the cap is reached: the predicate holds, the
  batch index 1 is above \<^verbatim>\<open>min_batch_index\<close> and \<^verbatim>\<open>can_increase_memory\<close> is true, and
  \<^verbatim>\<open>OutOfMemory\<close> answers true without a request to the broker.
\<close>

theorem OutOfMemory_no_request_counterexample:
  "available_memory (recording_state\<lparr>available_memory := 268435456,
                                     unflushed_memory_usage := 268435456\<rparr>)
     \<le> unflushed_memory_usage (recording_state\<lparr>available_memory := 268435456,
                                     unflushed_memory_usage := 268435456\<rparr>)
   \<and> min_batch_index (recording_state\<lparr>available_memory := 268435456,
                                     unflushed_memory_usage := 268435456\<rparr>) < 1
   \<and> can_increase_memory (recording_state\<lparr>available_memory := 268435456,
                                     unflushed_memory_usage := 268435456\<rparr>)
   \<and> OutOfMemory (recording_state\<lparr>available_memory := 268435456,
                                     unflushed_memory_usage := 268435456\<rparr>) 1
       = (True, recording_state\<lparr>available_memory := 268435456,
                                     unflushed_memory_usage := 268435456\<rparr>)
   \<and> requests (memory_state (snd (OutOfMemory
         (recording_state\<lparr>available_memory := 268435456,
                           unflushed_memory_usage := 268435456\<rparr>) 1)))
       = [4194304]"
  by (simp add: OutOfMemory_def IncreaseMemory_def SetMemorySize_def Let_def
        recording_state_def generous_context_def GetQueryMaxMemory_def)

theorem OutOfMemory_growth_request_witness:
  "available_memory (recording_state\<lparr>unflushed_memory_usage := 4194304\<rparr>)
     \<le> unflushed_memory_usage (recording_state\<lparr>unflushed_memory_usage := 4194304\<rparr>)
   \<and> min_batch_index (recording_state\<lparr>unflushed_memory_usage := 4194304\<rparr>) < 1
   \<and> can_increase_memory (recording_state\<lparr>unflushed_memory_usage := 4194304\<rparr>)
   \<and> available_memory (recording_state\<lparr>unflushed_memory_usage := 4194304\<rparr>)
       < min (available_memory (recording_state\<lparr>unflushed_memory_usage := 4194304\<rparr>) * 2)
           (GetQueryMaxMemory
              (client_context (recording_state\<lparr>unflushed_memory_usage := 4194304\<rparr>)) div 4)
   \<and> requests (memory_state
         (snd (OutOfMemory (recording_state\<lparr>unflushed_memory_usage := 4194304\<rparr>) 1)))
       = [4194304, 8388608]
   \<and> available_memory (snd (OutOfMemory (recording_state\<lparr>unflushed_memory_usage := 4194304\<rparr>) 1))
       = 8388608
   \<and> \<not> fst (OutOfMemory (recording_state\<lparr>unflushed_memory_usage := 4194304\<rparr>) 1)
   \<and> min (available_memory (recording_state\<lparr>available_memory := 268435456\<rparr>) * 2)
         (GetQueryMaxMemory
            (client_context (recording_state\<lparr>available_memory := 268435456\<rparr>)) div 4)
       \<le> available_memory (recording_state\<lparr>available_memory := 268435456\<rparr>)
   \<and> IncreaseMemory (recording_state\<lparr>available_memory := 268435456\<rparr>)
       = recording_state\<lparr>available_memory := 268435456\<rparr>
   \<and> \<not> can_increase_memory (recording_state\<lparr>can_increase_memory := False\<rparr>)
   \<and> IncreaseMemory (recording_state\<lparr>can_increase_memory := False\<rparr>)
       = recording_state\<lparr>can_increase_memory := False\<rparr>"
  using OutOfMemory_growth_request
          [of "recording_state\<lparr>unflushed_memory_usage := 4194304\<rparr>" 1 0]
    OutOfMemory_growth_request[of "recording_state\<lparr>available_memory := 268435456\<rparr>" 1 0]
    OutOfMemory_growth_request[of "recording_state\<lparr>can_increase_memory := False\<rparr>" 1 0]
  by (simp add: recording_state_def generous_context_def GetQueryMaxMemory_def
        SetRemainingSize_def GetReservation_def)

subsection \<open>RepartitionBatches: when nothing is done\<close>

lemma candidate_rows_loop_sum:
  "ordered_map m \<Longrightarrow>
   candidate_rows_loop m min_index acc
     = acc + sum_list (map (\<lambda>e. Count (snd e)) (filter (\<lambda>e. fst e < min_index) m))"
proof (induction m arbitrary: acc)
  case Nil
  then show ?case by simp
next
  case (Cons e m)
  from Cons.prems have later: "\<forall>x\<in>set m. fst e < fst x" and om: "ordered_map m"
    by (auto simp: ordered_map_def)
  show ?case
  proof (cases "min_index \<le> fst e")
    case True
    with later have "\<forall>x\<in>set m. \<not> fst x < min_index" by auto
    then have "filter (\<lambda>e. fst e < min_index) m = []" by (simp add: filter_empty_conv)
    moreover from True have "\<not> fst e < min_index" by simp
    ultimately show ?thesis using True by simp
  next
    case False
    then have "fst e < min_index" by (simp add: not_le)
    with False Cons.IH[OF om] show ?thesis by (simp add: add.assoc)
  qed
qed

text \<open>
  Claim C8. \<^verbatim>\<open>RepartitionBatches\<close> with \<^verbatim>\<open>final = false\<close> leaves the raw batches, the
  scheduled batch index and the task queue (the whole state) as they are when
  \<^verbatim>\<open>any_finished\<close> is true, and when the rows of the raw entries with a key below
  \<^verbatim>\<open>min_index\<close> sum to less than the desired batch size. The raw batches are a
  \<^verbatim>\<open>std::map\<close>: their keys ascend.
\<close>

theorem RepartitionBatches_returns_early:
  assumes "ordered_map (raw_batches g)"
    and "any_finished g
         \<or> sum_list (map (\<lambda>e. Count (snd e)) (filter (\<lambda>e. fst e < min_index) (raw_batches g)))
             < batch_size g"
  shows "RepartitionBatches op g min_index False = g
         \<and> raw_batches (RepartitionBatches op g min_index False) = raw_batches g
         \<and> scheduled_batch_index (RepartitionBatches op g min_index False)
             = scheduled_batch_index g
         \<and> task_queue (RepartitionBatches op g min_index False) = task_queue g"
proof -
  have "RepartitionBatches op g min_index False = g"
    using assms(2) candidate_rows_loop_sum[OF assms(1), of min_index 0]
    by (auto simp: RepartitionBatches_def)
  then show ?thesis by simp
qed

theorem RepartitionBatches_returns_early_witness:
  "ordered_map (raw_batches (recording_state
      \<lparr>raw_batches := [(0, [\<lparr>chunk_size = 400, chunk_bytes = 3200\<rparr>]),
                       (1, [\<lparr>chunk_size = 500, chunk_bytes = 4000\<rparr>]),
                       (2, [\<lparr>chunk_size = 2000, chunk_bytes = 16000\<rparr>])]\<rparr>))
   \<and> sum_list (map (\<lambda>e. Count (snd e)) (filter (\<lambda>e. fst e < 2) (raw_batches (recording_state
      \<lparr>raw_batches := [(0, [\<lparr>chunk_size = 400, chunk_bytes = 3200\<rparr>]),
                       (1, [\<lparr>chunk_size = 500, chunk_bytes = 4000\<rparr>]),
                       (2, [\<lparr>chunk_size = 2000, chunk_bytes = 16000\<rparr>])]\<rparr>)))) = 900
   \<and> batch_size (recording_state
      \<lparr>raw_batches := [(0, [\<lparr>chunk_size = 400, chunk_bytes = 3200\<rparr>]),
                       (1, [\<lparr>chunk_size = 500, chunk_bytes = 4000\<rparr>]),
                       (2, [\<lparr>chunk_size = 2000, chunk_bytes = 16000\<rparr>])]\<rparr>) = 1000
   \<and> RepartitionBatches recording_op (recording_state
      \<lparr>raw_batches := [(0, [\<lparr>chunk_size = 400, chunk_bytes = 3200\<rparr>]),
                       (1, [\<lparr>chunk_size = 500, chunk_bytes = 4000\<rparr>]),
                       (2, [\<lparr>chunk_size = 2000, chunk_bytes = 16000\<rparr>])]\<rparr>) 2 False
     = recording_state
      \<lparr>raw_batches := [(0, [\<lparr>chunk_size = 400, chunk_bytes = 3200\<rparr>]),
                       (1, [\<lparr>chunk_size = 500, chunk_bytes = 4000\<rparr>]),
                       (2, [\<lparr>chunk_size = 2000, chunk_bytes = 16000\<rparr>])]\<rparr>"
  using RepartitionBatches_returns_early
    [of "recording_state
      \<lparr>raw_batches := [(0, [\<lparr>chunk_size = 400, chunk_bytes = 3200\<rparr>]),
                       (1, [\<lparr>chunk_size = 500, chunk_bytes = 4000\<rparr>]),
                       (2, [\<lparr>chunk_size = 2000, chunk_bytes = 16000\<rparr>])]\<rparr>" 2 recording_op]
  by (simp add: recording_state_def ordered_map_def Count_def)

subsection \<open>The raw batches stay ordered\<close>

lemma map_insert_keys:
  "x \<in> set (fst (map_insert k v m)) \<Longrightarrow> fst x = k \<or> x \<in> set m"
  by (induction m) (auto split: if_splits)

lemma map_insert_ordered:
  "ordered_map m \<Longrightarrow> ordered_map (fst (map_insert k v m))"
proof (induction m)
  case Nil
  then show ?case by (simp add: ordered_map_def)
next
  case (Cons e m)
  then have IH: "ordered_map (fst (map_insert k v m))" by (simp add: ordered_map_def)
  from Cons.prems have e: "\<forall>x\<in>set (map fst m). fst e < x" by (auto simp: ordered_map_def)
  show ?case
  proof (cases "k < fst e")
    case True
    with Cons.prems show ?thesis by (auto simp: ordered_map_def)
  next
    case False
    show ?thesis
    proof (cases "k = fst e")
      case True
      with Cons.prems show ?thesis by simp
    next
      case ne: False
      with False have "fst e < k" by simp
      with e have "\<forall>x\<in>set (map fst (fst (map_insert k v m))). fst e < x"
        by (auto dest: map_insert_keys)
      with IH False ne show ?thesis by (simp add: ordered_map_def)
    qed
  qed
qed

lemma map_assign_keys:
  "x \<in> set (map_assign k v m) \<Longrightarrow> fst x = k \<or> x \<in> set m"
  by (induction m) (auto split: if_splits)

lemma map_assign_ordered:
  "ordered_map m \<Longrightarrow> ordered_map (map_assign k v m)"
proof (induction m)
  case Nil
  then show ?case by (simp add: ordered_map_def)
next
  case (Cons e m)
  then have IH: "ordered_map (map_assign k v m)" by (simp add: ordered_map_def)
  from Cons.prems have e: "\<forall>x\<in>set (map fst m). fst e < x" by (auto simp: ordered_map_def)
  show ?case
  proof (cases "k < fst e")
    case True
    with Cons.prems show ?thesis by (auto simp: ordered_map_def)
  next
    case False
    show ?thesis
    proof (cases "k = fst e")
      case True
      with Cons.prems show ?thesis by (auto simp: ordered_map_def)
    next
      case ne: False
      with False have "fst e < k" by simp
      with e have "\<forall>x\<in>set (map fst (map_assign k v m)). fst e < x"
        by (auto dest: map_assign_keys)
      with IH False ne show ?thesis by (simp add: ordered_map_def)
    qed
  qed
qed

lemma AddRawBatchData_ordered:
  "ordered_map (raw_batches g) \<Longrightarrow> AddRawBatchData g i c = Inr g' \<Longrightarrow>
   ordered_map (raw_batches g')"
  by (auto simp: AddRawBatchData_def Let_def map_insert_ordered split: if_splits)

lemma gather_collections_ordered:
  "ordered_map m \<Longrightarrow> ordered_map (fst (gather_collections m min_index mb acc))"
  by (induction m arbitrary: mb acc) (auto simp: ordered_map_def)

lemma schedule_prepare_raw_batches:
  "raw_batches (schedule_prepare g c) = raw_batches g"
  by (simp add: schedule_prepare_def AddTask_def)

lemma append_chunks_raw_batches:
  "raw_batches (fst (append_chunks g cur chunks)) = raw_batches g"
  by (induction chunks arbitrary: g cur) (simp_all add: Let_def schedule_prepare_raw_batches)

lemma repartition_collections_raw_batches:
  "raw_batches (fst (repartition_collections g current collections)) = raw_batches g"
  by (induction collections arbitrary: g current)
     (auto simp: schedule_prepare_raw_batches append_chunks_raw_batches split: option.splits)

lemma RepartitionBatches_ordered:
  assumes "ordered_map (raw_batches g)"
  shows "ordered_map (raw_batches (RepartitionBatches op g min_index final))"
proof -
  have "ordered_map (fst (gather_collections (raw_batches g) min_index 0 []))"
    using assms by (rule gather_collections_ordered)
  then show ?thesis
    using assms
    by (auto simp: RepartitionBatches_def Let_def repartition_collections_raw_batches
          schedule_prepare_raw_batches map_assign_ordered split: option.splits)
qed

text \<open>
  The raw batches stay a map with ascending keys: \<^verbatim>\<open>AddRawBatchData\<close> and
  \<^verbatim>\<open>RepartitionBatches\<close> keep the order of the keys.
\<close>

theorem raw_batches_stay_ordered:
  assumes "ordered_map (raw_batches g)"
  shows "ordered_map (raw_batches (RepartitionBatches op g min_index final))
         \<and> (\<forall>g'. AddRawBatchData g i c = Inr g' \<longrightarrow> ordered_map (raw_batches g'))"
  using assms RepartitionBatches_ordered AddRawBatchData_ordered by blast

theorem raw_batches_stay_ordered_witness:
  "ordered_map (raw_batches (recording_state\<lparr>raw_batches := [(0, rows_3500_aligned)]\<rparr>))
   \<and> AddRawBatchData (recording_state\<lparr>raw_batches := [(0, rows_3500_aligned)]\<rparr>) 2
         rows_3500_full_vectors
       = Inr (recording_state
                \<lparr>raw_batches := [(0, rows_3500_aligned), (2, rows_3500_full_vectors)]\<rparr>)
   \<and> ordered_map [(0, rows_3500_aligned), (2, rows_3500_full_vectors)]
   \<and> AddRawBatchData (recording_state\<lparr>raw_batches := [(0, rows_3500_aligned)]\<rparr>) 0
         rows_3500_full_vectors
       = Inl (DuplicateBatchIndex 0)"
  using raw_batches_stay_ordered
    [of "recording_state\<lparr>raw_batches := [(0, rows_3500_aligned)]\<rparr>" recording_op 1 False 2
        rows_3500_full_vectors]
  by (simp add: AddRawBatchData_def Let_def ordered_map_def recording_state_def)

subsection \<open>RepartitionBatches keeps the rows\<close>

lemma schedule_prepare_rows:
  "queued_rows (schedule_prepare g c) = queued_rows g + Count c"
  by (simp add: queued_rows_def schedule_prepare_def AddTask_def)

lemma append_chunks_rows:
  "queued_rows (fst (append_chunks g cur chunks)) + Count (snd (append_chunks g cur chunks))
   = queued_rows g + Count cur + sum_list (map chunk_size chunks)"
proof (induction chunks arbitrary: g cur)
  case Nil
  then show ?case by simp
next
  case (Cons chunk chunks)
  show ?case
  proof (cases "Count (Append cur chunk) < batch_size g")
    case True
    with Cons.IH[of g "Append cur chunk"] show ?thesis
      by (simp add: Let_def Count_Append add.assoc)
  next
    case False
    with Cons.IH[of "schedule_prepare g (Append cur chunk)" "[]"] show ?thesis
      by (simp add: Let_def Count_Append Count_Nil schedule_prepare_rows add.assoc)
  qed
qed

lemma repartition_collections_rows:
  "queued_rows (fst (repartition_collections g current collections))
     + current_rows (snd (repartition_collections g current collections))
   = queued_rows g + current_rows current + sum_list (map Count collections)"
proof (induction collections arbitrary: g current)
  case Nil
  then show ?case by simp
next
  case (Cons c collections)
  have chunks: "sum_list (map chunk_size (Chunks c)) = Count c"
    by (simp add: Chunks_def Count_def)
  show ?case
  proof (cases current)
    case (Some cur)
    from Cons.IH[of "fst (append_chunks g cur (Chunks c))"
                    "Some (snd (append_chunks g cur (Chunks c)))"]
      append_chunks_rows[of g cur "Chunks c"] Some chunks
    show ?thesis by (simp add: current_rows_def add.assoc)
  next
    case None
    show ?thesis
    proof (cases "CorrectSizeForBatch (Count c) (batch_size g)")
      case True
      with Cons.IH[of "schedule_prepare g c" None] None show ?thesis
        by (simp add: current_rows_def schedule_prepare_rows add.assoc)
    next
      case False
      show ?thesis
      proof (cases "Count c < batch_size g")
        case True
        with Cons.IH[of g "Some c"] None False show ?thesis
          by (simp add: current_rows_def add.assoc)
      next
        case large: False
        from Cons.IH[of "fst (append_chunks g [] (Chunks c))"
                        "Some (snd (append_chunks g [] (Chunks c)))"]
          append_chunks_rows[of g "[]" "Chunks c"] None False large chunks
        show ?thesis by (simp add: current_rows_def add.assoc Count_Nil)
      qed
    qed
  qed
qed

text \<open>What \<open>gather_collections\<close> does: it takes a prefix of the map.\<close>

lemma gather_collections_split:
  "\<exists>pre. m = pre @ fst (gather_collections m min_index mb acc)
         \<and> snd (snd (gather_collections m min_index mb acc)) = acc @ map snd pre
         \<and> fst (snd (gather_collections m min_index mb acc))
             = (if pre = [] then mb else fst (last pre))"
proof (induction m arbitrary: mb acc)
  case Nil
  then show ?case by simp
next
  case (Cons e m)
  show ?case
  proof (cases "min_index \<le> fst e")
    case True
    then show ?thesis by simp
  next
    case False
    from Cons.IH[of "fst e" "acc @ [snd e]"] obtain pre where
      pre: "m = pre @ fst (gather_collections m min_index (fst e) (acc @ [snd e]))"
        "snd (snd (gather_collections m min_index (fst e) (acc @ [snd e])))
           = (acc @ [snd e]) @ map snd pre"
        "fst (snd (gather_collections m min_index (fst e) (acc @ [snd e])))
           = (if pre = [] then fst e else fst (last pre))"
      by blast
    have "e # m = (e # pre) @ fst (gather_collections (e # m) min_index mb acc)"
      using False pre(1) by simp
    moreover have "snd (snd (gather_collections (e # m) min_index mb acc))
        = acc @ map snd (e # pre)"
      using False pre(2) by simp
    moreover have "fst (snd (gather_collections (e # m) min_index mb acc))
        = (if e # pre = [] then mb else fst (last (e # pre)))"
      using False pre(3) by simp
    ultimately show ?thesis by blast
  qed
qed

lemma map_assign_below:
  "\<forall>x\<in>set m. k < fst x \<Longrightarrow> map_assign k v m = (k, v) # m"
  by (cases m) auto

text \<open>
  \<^verbatim>\<open>RepartitionBatches\<close> neither drops nor repeats a row: the rows of the raw batches and
  of the queued prepare tasks together stay the same.
\<close>

theorem RepartitionBatches_keeps_rows:
  assumes "ordered_map (raw_batches g)"
  shows "raw_rows (raw_batches (RepartitionBatches op g min_index final))
           + queued_rows (RepartitionBatches op g min_index final)
         = raw_rows (raw_batches g) + queued_rows g"
proof (cases "raw_batches g = [] \<or> (\<not> final \<and> any_finished g)
                \<or> (\<not> final \<and> candidate_rows_loop (raw_batches g) min_index 0 < batch_size g)")
  case True
  then have "RepartitionBatches op g min_index final = g"
    by (auto simp: RepartitionBatches_def)
  then show ?thesis by simp
next
  case False
  define gathered where "gathered = gather_collections (raw_batches g) min_index 0 []"
  define g1 where "g1 = g\<lparr>raw_batches := fst gathered\<rparr>"
  define r where "r = repartition_collections g1 None (snd (snd gathered))"
  from gather_collections_split[of "raw_batches g" min_index 0 "[]"] obtain pre where
    pre: "raw_batches g = pre @ fst gathered" "snd (snd gathered) = map snd pre"
      "fst (snd gathered) = (if pre = [] then 0 else fst (last pre))"
    unfolding gathered_def by auto
  have raw: "raw_rows (raw_batches g)
             = raw_rows (fst gathered) + sum_list (map Count (snd (snd gathered)))"
    by (subst pre(1)) (simp add: raw_rows_def pre(2) comp_def add.commute)
  have rr: "raw_batches (fst r) = fst gathered"
    by (simp add: r_def repartition_collections_raw_batches g1_def)
  have q: "queued_rows (fst r) + current_rows (snd r)
           = queued_rows g + sum_list (map Count (snd (snd gathered)))"
    using repartition_collections_rows[of g1 None "snd (snd gathered)"]
    by (simp add: r_def current_rows_def g1_def queued_rows_def)
  from False have unfold: "RepartitionBatches op g min_index final =
        (case snd r of
           None \<Rightarrow> fst r
         | Some current \<Rightarrow>
             if Count current > 0 then
               (if final \<or> CorrectSizeForBatch (Count current) (batch_size (fst r))
                then schedule_prepare (fst r) current
                else (fst r)\<lparr>raw_batches :=
                       map_assign (fst (snd gathered)) current (raw_batches (fst r))\<rparr>)
             else fst r)"
    unfolding r_def g1_def gathered_def RepartitionBatches_def Let_def by auto
  show ?thesis
  proof (cases "snd r")
    case None
    with unfold rr q raw show ?thesis by (simp add: current_rows_def add.commute)
  next
    case (Some current)
    have "pre \<noteq> []"
    proof
      assume "pre = []"
      with pre(2) have "r = (g1, None)" by (simp add: r_def)
      with Some show False by simp
    qed
    with pre(3) have k: "fst (snd gathered) = fst (last pre)" by simp
    from assms have "\<forall>a\<in>set pre. \<forall>b\<in>set (fst gathered). fst a < fst b"
      by (subst (asm) pre(1)) (auto simp: ordered_map_def sorted_wrt_append)
    with \<open>pre \<noteq> []\<close> k have "\<forall>x\<in>set (fst gathered). fst (snd gathered) < fst x"
      by (metis last_in_set)
    then have assign: "map_assign (fst (snd gathered)) current (fst gathered)
                       = (fst (snd gathered), current) # fst gathered"
      by (rule map_assign_below)
    show ?thesis
    proof (cases "Count current > 0")
      case False
      then have "Count current = 0" by (simp add: word_neq_0_conv[symmetric])
      with False unfold Some rr q raw show ?thesis
        by (simp add: current_rows_def add.commute)
    next
      case True
      show ?thesis
      proof (cases "final \<or> CorrectSizeForBatch (Count current) (batch_size (fst r))")
        case sched: True
        with True unfold Some have "RepartitionBatches op g min_index final
            = schedule_prepare (fst r) current" by auto
        with rr q raw Some show ?thesis
          by (simp add: schedule_prepare_rows schedule_prepare_raw_batches current_rows_def
                add.assoc add.left_commute add.commute)
      next
        case reinsert: False
        with True unfold Some have "RepartitionBatches op g min_index final
            = (fst r)\<lparr>raw_batches :=
                       map_assign (fst (snd gathered)) current (raw_batches (fst r))\<rparr>"
          by auto
        with rr q raw Some assign show ?thesis
          by (simp add: current_rows_def raw_rows_def queued_rows_def
                add.assoc add.left_commute add.commute)
      qed
    qed
  qed
qed

theorem RepartitionBatches_keeps_rows_witness:
  "ordered_map (raw_batches (recording_state
      \<lparr>raw_batches := [(0, rows_3500_full_vectors),
                       (1, [\<lparr>chunk_size = 700, chunk_bytes = 5600\<rparr>])],
       batch_size := 3000\<rparr>))
   \<and> raw_rows (raw_batches (recording_state
      \<lparr>raw_batches := [(0, rows_3500_full_vectors),
                       (1, [\<lparr>chunk_size = 700, chunk_bytes = 5600\<rparr>])],
       batch_size := 3000\<rparr>)) = 4200
   \<and> raw_rows (raw_batches (RepartitionBatches recording_op (recording_state
      \<lparr>raw_batches := [(0, rows_3500_full_vectors),
                       (1, [\<lparr>chunk_size = 700, chunk_bytes = 5600\<rparr>])],
       batch_size := 3000\<rparr>) 2 False)) = 700
   \<and> queued_rows (RepartitionBatches recording_op (recording_state
      \<lparr>raw_batches := [(0, rows_3500_full_vectors),
                       (1, [\<lparr>chunk_size = 700, chunk_bytes = 5600\<rparr>])],
       batch_size := 3000\<rparr>) 2 False) = 3500"
proof -
  have c: "CorrectSizeForBatch 3500 3000" "\<not> CorrectSizeForBatch 700 3000"
    by (simp_all add: CorrectSizeForBatch_tolerance STANDARD_VECTOR_SIZE_def)
  show ?thesis
    using RepartitionBatches_keeps_rows
      [of "recording_state
      \<lparr>raw_batches := [(0, rows_3500_full_vectors),
                       (1, [\<lparr>chunk_size = 700, chunk_bytes = 5600\<rparr>])],
       batch_size := 3000\<rparr>" recording_op 2 False]
    by (simp add: RepartitionBatches_def schedule_prepare_def AddTask_def Chunks_def Count_def
          Append_def Let_def c recording_state_def rows_3500_full_vectors_def ordered_map_def
          raw_rows_def queued_rows_def)
qed

subsection \<open>SetMemorySize\<close>

text \<open>
  Claim C9. When \<^verbatim>\<open>SetMemorySize\<close> asks the broker (the size, capped to a quarter of the
  query's maximal memory, is above \<^verbatim>\<open>available_memory\<close>), \<^verbatim>\<open>available_memory\<close> becomes
  the reservation the broker granted, also when that is less than before: some call of
  \<^verbatim>\<open>SetMemorySize\<close> lowers \<^verbatim>\<open>available_memory\<close>. When the capped size is at most
  \<^verbatim>\<open>available_memory\<close>, the broker is not called and the state is unchanged.
\<close>

theorem SetMemorySize_takes_the_grant:
  fixes g :: "('pd, 'gs) FixedBatchCopyGlobalState"
  defines "cap \<equiv> GetQueryMaxMemory (client_context g) div 4"
  shows "(available_memory g < min sz cap \<longrightarrow>
            memory_state (SetMemorySize g sz)
              = SetRemainingSize (client_context g) (memory_state g) (min sz cap)
          \<and> requests (memory_state (SetMemorySize g sz))
              = requests (memory_state g) @ [min sz cap]
          \<and> available_memory (SetMemorySize g sz)
              = GetReservation (SetRemainingSize (client_context g) (memory_state g) (min sz cap)))
       \<and> (min sz cap \<le> available_memory g \<longrightarrow> SetMemorySize g sz = g)
       \<and> (\<exists>g0 :: ('pd, 'gs) FixedBatchCopyGlobalState.
             available_memory (SetMemorySize g0 8) < available_memory g0)"
proof -
  let ?ctx = "\<lparr>query_max_memory = 64, number_of_threads = 1, grant = (\<lambda>ms sz. 2)\<rparr>"
  let ?g0 = "g\<lparr>client_context := ?ctx, available_memory := 4\<rparr>"
  have "available_memory (SetMemorySize ?g0 8) < available_memory ?g0"
    by (simp add: SetMemorySize_def Let_def GetQueryMaxMemory_def SetRemainingSize_def
          GetReservation_def)
  then have ex: "\<exists>g0 :: ('pd, 'gs) FixedBatchCopyGlobalState.
             available_memory (SetMemorySize g0 8) < available_memory g0" by blast
  show ?thesis
    using ex
    by (auto simp: SetMemorySize_def Let_def cap_def SetRemainingSize_def GetReservation_def
             simp flip: not_less)
qed

theorem SetMemorySize_takes_the_grant_witness:
  "available_memory recording_state
     < min 8388608 (GetQueryMaxMemory (client_context recording_state) div 4)
   \<and> requests (memory_state (SetMemorySize recording_state 8388608)) = [4194304, 8388608]
   \<and> available_memory (SetMemorySize recording_state 8388608) = 8388608
   \<and> min 16 (GetQueryMaxMemory (client_context recording_state) div 4)
       \<le> available_memory recording_state
   \<and> SetMemorySize recording_state 16 = recording_state"
  using SetMemorySize_takes_the_grant[of recording_state 8388608]
    SetMemorySize_takes_the_grant[of recording_state 16]
  by (simp add: recording_state_def generous_context_def GetQueryMaxMemory_def
        SetRemainingSize_def GetReservation_def)

subsection \<open>MaxThreads\<close>

lemma div_plus_one_no_wrap:
  fixes a m :: idx_t
  assumes "1 < m"
  shows "1 \<le> a div m + 1"
proof -
  have m2: "2 \<le> unat m" using assms by (simp add: word_less_nat_alt) 
  have "unat (a div m) = unat a div unat m" by (simp add: unat_div)
  also have "\<dots> \<le> unat a div 2" using m2 by (simp add: div_le_mono2)
  also have "\<dots> < 2 ^ 63" using unsigned_less[of a, where 'a=nat] by simp
  finally have lt: "unat (a div m) < 2 ^ 63" .
  then have "unat (a div m) + unat (1::idx_t) < 2 ^ 64" by simp
  then have "unat (a div m + 1) = unat (a div m) + 1"
    by (simp add: unat_add_lem[THEN iffD1])
  then show ?thesis by (simp add: word_le_nat_alt)
qed

lemma MaxThreads_above_1:
  assumes "1 \<le> source_max_threads" and "1 < minimum_memory_per_thread g"
  shows "\<exists>n g1. MaxThreads g source_max_threads = Inr (n, g1)
           \<and> n = min source_max_threads
                   (available_memory g1 div minimum_memory_per_thread g + 1)
           \<and> 1 \<le> available_memory g1 div minimum_memory_per_thread g + 1
           \<and> 1 \<le> n \<and> n \<le> source_max_threads"
proof -
  let ?g1 = "SetMemorySize g (source_max_threads * minimum_memory_per_thread g)"
  have m: "minimum_memory_per_thread ?g1 = minimum_memory_per_thread g"
    by (simp add: SetMemorySize_def Let_def)
  have nz: "minimum_memory_per_thread g \<noteq> 0" using assms(2) by auto
  have c: "1 \<le> available_memory ?g1 div minimum_memory_per_thread g + 1"
    using assms(2) by (rule div_plus_one_no_wrap)
  show ?thesis
    using assms(1) c m nz by (simp add: MaxThreads_def Let_def)
qed

lemma minimum_memory_per_thread_above_1:
  fixes n :: idx_t
  assumes "MINIMUM_MEMORY_PER_COLUMN_PER_THREAD * n \<noteq> 0"
  shows "1 < MINIMUM_MEMORY_PER_COLUMN_PER_THREAD * n"
proof -
  have "even (MINIMUM_MEMORY_PER_COLUMN_PER_THREAD * n)"
    by (simp add: MINIMUM_MEMORY_PER_COLUMN_PER_THREAD_def)
  have "MINIMUM_MEMORY_PER_COLUMN_PER_THREAD * n \<noteq> 1"
  proof
    assume "MINIMUM_MEMORY_PER_COLUMN_PER_THREAD * n = 1"
    with \<open>even (MINIMUM_MEMORY_PER_COLUMN_PER_THREAD * n)\<close> have "even (1::idx_t)" by simp
    then show False by simp
  qed
  with assms have "unat (MINIMUM_MEMORY_PER_COLUMN_PER_THREAD * n) \<noteq> 0"
    and "unat (MINIMUM_MEMORY_PER_COLUMN_PER_THREAD * n) \<noteq> 1"
    by (simp_all add: word_unat_eq_iff)
  then have "1 < unat (MINIMUM_MEMORY_PER_COLUMN_PER_THREAD * n)" by arith
  then show ?thesis by (simp add: word_less_nat_alt)
qed

lemma GetGlobalSinkState_minimum_memory_per_thread:
  assumes "GetGlobalSinkState op ctx indeterminate = Inr g"
  shows "minimum_memory_per_thread g = MINIMUM_MEMORY_PER_COLUMN_PER_THREAD * column_count op"
  using assms
  by (auto simp: GetGlobalSinkState_def SetMemorySize_def Let_def split: option.splits if_splits)

text \<open>
  Claim C10. For every \<^verbatim>\<open>source_max_threads\<close> of at least 1 and every value of
  \<^verbatim>\<open>available_memory\<close>, \<^verbatim>\<open>MaxThreads\<close> returns a value between 1 and
  \<^verbatim>\<open>source_max_threads\<close>: the cap \<^verbatim>\<open>available_memory / minimum_memory_per_thread + 1\<close>
  is at least 1. \<^verbatim>\<open>minimum_memory_per_thread\<close> is what \<^verbatim>\<open>GetGlobalSinkState\<close> sets, 4 MiB
  times the number of columns, and it is not 0, where the division would trap.
\<close>

theorem MaxThreads_bounds:
  assumes "1 \<le> source_max_threads"
    and "minimum_memory_per_thread g = MINIMUM_MEMORY_PER_COLUMN_PER_THREAD * columns"
    and "minimum_memory_per_thread g \<noteq> 0"
  shows "\<exists>n g1. MaxThreads g source_max_threads = Inr (n, g1)
           \<and> n = min source_max_threads
                   (available_memory g1 div minimum_memory_per_thread g + 1)
           \<and> 1 \<le> available_memory g1 div minimum_memory_per_thread g + 1
           \<and> 1 \<le> n \<and> n \<le> source_max_threads"
proof -
  from assms(2,3) have "1 < minimum_memory_per_thread g"
    using minimum_memory_per_thread_above_1[of columns] by simp
  with assms(1) show ?thesis by (rule MaxThreads_above_1)
qed

theorem MaxThreads_bounds_witness:
  "(1::idx_t) \<le> 8
   \<and> minimum_memory_per_thread
        (recording_state\<lparr>client_context := generous_context\<lparr>grant := (\<lambda>ms sz. 0)\<rparr>,
                          available_memory := 0\<rparr>)
      = MINIMUM_MEMORY_PER_COLUMN_PER_THREAD * 1
   \<and> minimum_memory_per_thread
        (recording_state\<lparr>client_context := generous_context\<lparr>grant := (\<lambda>ms sz. 0)\<rparr>,
                          available_memory := 0\<rparr>) \<noteq> 0
   \<and> (\<exists>g1. MaxThreads
          (recording_state\<lparr>client_context := generous_context\<lparr>grant := (\<lambda>ms sz. 0)\<rparr>,
                            available_memory := 0\<rparr>) 8 = Inr (1, g1)
          \<and> available_memory g1 = 0)
   \<and> (\<exists>g1. MaxThreads recording_state 8 = Inr (8, g1))"
proof -
  have a: "\<exists>g1. MaxThreads
        (recording_state\<lparr>client_context := generous_context\<lparr>grant := (\<lambda>ms sz. 0)\<rparr>,
                          available_memory := 0\<rparr>) 8 = Inr (1, g1)
          \<and> available_memory g1 = 0"
    by (simp add: MaxThreads_def SetMemorySize_def Let_def recording_state_def
          generous_context_def GetQueryMaxMemory_def SetRemainingSize_def GetReservation_def)
  have b: "\<exists>g1. MaxThreads recording_state 8 = Inr (8, g1)"
    by (simp add: MaxThreads_def SetMemorySize_def Let_def recording_state_def
          generous_context_def GetQueryMaxMemory_def SetRemainingSize_def GetReservation_def)
  have h1: "(1::idx_t) \<le> 8" by simp
  have h2: "minimum_memory_per_thread
        (recording_state\<lparr>client_context := generous_context\<lparr>grant := (\<lambda>ms sz. 0)\<rparr>,
                          available_memory := 0\<rparr>)
      = MINIMUM_MEMORY_PER_COLUMN_PER_THREAD * 1"
    by (simp add: recording_state_def MINIMUM_MEMORY_PER_COLUMN_PER_THREAD_def)
  have h3: "minimum_memory_per_thread
        (recording_state\<lparr>client_context := generous_context\<lparr>grant := (\<lambda>ms sz. 0)\<rparr>,
                          available_memory := 0\<rparr>) \<noteq> 0"
    by (simp add: recording_state_def)
  from MaxThreads_bounds[OF h1 h2 h3] a b h1 h2 h3 show ?thesis by blast
qed

subsection \<open>The batch indices in flight\<close>






































end
